theory Spec2Isabelle
  imports Complex_Main "HOL-Library.Multiset"
begin

section \<open>Data model\<close>

text \<open>
  The parameter dictionary of \<^verbatim>\<open>params.py\<close>: five numeric entries. Python floats are
  modelled by exact reals; the special values that numpy produces where exact arithmetic
  has no answer (division by zero, square root or logarithm of a non-positive number)
  are kept, see \<open>npfloat\<close>. The solver and the RMS error are also modelled with the
  rounding of the doubles, see the section on floating point; overflow is not modelled.
\<close>

record parameter_set =
  L :: real
  D :: real
  k :: real
  c0 :: real
  T_final :: real

definition params :: parameter_set where
  "params = \<lparr>L = 5 / 1000, D = 1 / 10 ^ 10, k = 2 / 10 ^ 4, c0 = 1, T_final = 3600 * 2\<rparr>"

text \<open>The exceptions the code can raise (Python's own and numpy's).\<close>

datatype py_error = ZeroDivisionError | ValueError | IndexError | TypeError | LinAlgError

text \<open>What the solver prints: the two lines of its stability warning.\<close>

datatype printed = WARNING_Unstable real | Reduce_dt_or_increase_dx

section \<open>The explicit solver (numerical\_solution\_EE.py)\<close>

text \<open>
  \<^verbatim>\<open>np.linspace(start, stop, num)\<close>: a negative \<open>num\<close> raises ValueError; otherwise
  \<open>arange(num) * step + start\<close> with \<open>step = (stop - start) / (num - 1)\<close>, and the last
  entry is set to \<open>stop\<close> when there is more than one.
\<close>

definition np_linspace :: "real \<Rightarrow> real \<Rightarrow> int \<Rightarrow> py_error + real list" where
  "np_linspace start stop num =
     (if num < 0 then Inl ValueError
      else if num = 0 then Inr []
      else if num = 1 then Inr [start]
      else
        let step = (stop - start) / real_of_int (num - 1);
            y = map (\<lambda>i. real i * step + start) [0..<nat num]
        in Inr (y[nat num - 1 := stop]))"

text \<open>
  One pass of the time loop (lines 40 to 47). The state is the pair of arrays
  \<open>(c, c_new)\<close>. The slices \<^verbatim>\<open>c[1:-1]\<close>, \<^verbatim>\<open>c[2:]\<close> and \<^verbatim>\<open>c[:-2]\<close> are taken from \<open>c\<close>,
  the right-hand side is computed elementwise, and only then stored into
  \<^verbatim>\<open>c_new[1:-1]\<close>; the two boundary entries of \<open>c_new\<close> are overwritten and \<open>c_new\<close>
  is copied into \<open>c\<close>.
\<close>

definition ftcs_step ::
  "parameter_set \<Rightarrow> real \<Rightarrow> real \<Rightarrow> real list \<times> real list \<Rightarrow> real list \<times> real list" where
  "ftcs_step p alpha dt s =
     (let c = fst s; c_new = snd s;
          c_i = butlast (drop 1 c);
          c_ip1 = drop 2 c;
          c_im1 = take (length c - 2) c;
          rhs = map (\<lambda>(ci, cip1, cim1). ci + alpha * (cip1 - 2 * ci + cim1) - k p * dt * ci)
                    (zip c_i (zip c_ip1 c_im1));
          c_new1 = take 1 c_new @ rhs @ drop (1 + length rhs) c_new;
          c_new2 = c_new1[0 := c0 p];
          c_new3 = c_new2[length c_new2 - 1 := 0]
      in (c_new3, c_new3))"

text \<open>\<^verbatim>\<open>for n in range(Nt)\<close>: the loop body run a given number of times.\<close>

fun time_stepping ::
  "parameter_set \<Rightarrow> real \<Rightarrow> real \<Rightarrow> nat \<Rightarrow> real list \<times> real list \<Rightarrow> real list \<times> real list" where
  "time_stepping p alpha dt 0 s = s"
| "time_stepping p alpha dt (Suc n) s = time_stepping p alpha dt n (ftcs_step p alpha dt s)"

text \<open>
  The stability ratio of a run: \<^verbatim>\<open>alpha = (D * dt) / (dx**2)\<close> of line 14, with \<open>dx\<close> and
  \<open>dt\<close> of lines 9 and 10.
\<close>

definition ftcs_alpha :: "parameter_set \<Rightarrow> int \<Rightarrow> int \<Rightarrow> real" where
  "ftcs_alpha p Nx Nt =
     (D p * (T_final p / real_of_int Nt)) / (L p / real_of_int Nx) ^ 2"

text \<open>
  \<^verbatim>\<open>ftcs_solver(p, Nx, Nt)\<close>. The divisions \<^verbatim>\<open>L / Nx\<close>, \<^verbatim>\<open>T_final / Nt\<close> and
  \<^verbatim>\<open>(D * dt) / (dx**2)\<close> are Python divisions and raise on a zero divisor; \<^verbatim>\<open>c[0] = c0\<close>
  raises on an empty array; a negative \<open>Nt\<close> runs the loop zero times. The result is the
  printed warning lines, the grid and the final field.
\<close>

definition ftcs_solver ::
  "parameter_set \<Rightarrow> int \<Rightarrow> int \<Rightarrow> py_error + (printed list \<times> real list \<times> real list)" where
  "ftcs_solver p Nx Nt =
     (if Nx = 0 then Inl ZeroDivisionError
      else if Nt = 0 then Inl ZeroDivisionError
      else
        let dx = L p / real_of_int Nx;
            dt = T_final p / real_of_int Nt
        in case np_linspace 0 (L p) (Nx + 1) of
             Inl e \<Rightarrow> Inl e
           | Inr x \<Rightarrow>
               if dx ^ 2 = 0 then Inl ZeroDivisionError
               else
                 let alpha = (D p * dt) / dx ^ 2;
                     stability_limit = 1 / 2;
                     out = (if alpha > stability_limit
                            then [WARNING_Unstable alpha, Reduce_dt_or_increase_dx] else []);
                     c = replicate (nat (Nx + 1)) 0;
                     c_new = replicate (nat (Nx + 1)) 0
                 in if c = [] then Inl IndexError
                    else Inr (out, x, fst (time_stepping p alpha dt (nat Nt) (c[0 := c0 p], c_new))))"

text \<open>
  The array \<open>c\<close> after \<open>n\<close> passes of the loop of \<open>ftcs_solver p Nx Nt\<close>, started
  from the arrays the solver sets up.
\<close>

definition field_after :: "parameter_set \<Rightarrow> int \<Rightarrow> int \<Rightarrow> nat \<Rightarrow> real list" where
  "field_after p Nx Nt n =
     fst (time_stepping p (ftcs_alpha p Nx Nt) (T_final p / real_of_int Nt) n
            ((replicate (nat (Nx + 1)) 0)[0 := c0 p], replicate (nat (Nx + 1)) 0))"

section \<open>numpy's special values\<close>

text \<open>
  A float64 as numpy sees it: a finite value (an exact real here), an infinity or NaN.
  numpy's array division and its \<^verbatim>\<open>sqrt\<close> and \<^verbatim>\<open>log\<close> do not raise: they return these
  values (with a RuntimeWarning only). A zero divisor is taken to be \<open>+0.0\<close>.
\<close>

datatype npfloat = Fin real | PInf | NInf | NaN

definition np_isfinite :: "npfloat \<Rightarrow> bool" where
  "np_isfinite v = (case v of Fin _ \<Rightarrow> True | _ \<Rightarrow> False)"

definition np_true_divide :: "real \<Rightarrow> real \<Rightarrow> npfloat" where
  "np_true_divide a b =
     (if b \<noteq> 0 then Fin (a / b)
      else if a = 0 then NaN
      else if 0 < a then PInf else NInf)"

definition np_sqrt_real :: "real \<Rightarrow> npfloat" where
  "np_sqrt_real a = (if a < 0 then NaN else Fin (sqrt a))"

definition np_log :: "real \<Rightarrow> npfloat" where
  "np_log a = (if 0 < a then Fin (ln a) else if a = 0 then NInf else NaN)"

fun np_add :: "npfloat \<Rightarrow> npfloat \<Rightarrow> npfloat" where
  "np_add (Fin a) (Fin b) = Fin (a + b)"
| "np_add NaN v = NaN"
| "np_add v NaN = NaN"
| "np_add PInf NInf = NaN"
| "np_add NInf PInf = NaN"
| "np_add PInf v = PInf"
| "np_add v PInf = PInf"
| "np_add NInf v = NInf"
| "np_add v NInf = NInf"

fun np_negative :: "npfloat \<Rightarrow> npfloat" where
  "np_negative (Fin a) = Fin (- a)"
| "np_negative PInf = NInf"
| "np_negative NInf = PInf"
| "np_negative NaN = NaN"

definition np_subtract :: "npfloat \<Rightarrow> npfloat \<Rightarrow> npfloat" where
  "np_subtract u v = np_add u (np_negative v)"

fun np_square :: "npfloat \<Rightarrow> npfloat" where
  "np_square (Fin a) = Fin (a ^ 2)"
| "np_square PInf = PInf"
| "np_square NInf = PInf"
| "np_square NaN = NaN"

fun np_sqrt :: "npfloat \<Rightarrow> npfloat" where
  "np_sqrt (Fin a) = np_sqrt_real a"
| "np_sqrt PInf = PInf"
| "np_sqrt NInf = NaN"
| "np_sqrt NaN = NaN"

text \<open>\<^verbatim>\<open>np.mean\<close>: the sum divided by the number of entries; NaN on an empty array.\<close>

definition np_sum :: "npfloat list \<Rightarrow> npfloat" where
  "np_sum vs = foldr np_add vs (Fin 0)"

definition np_mean :: "npfloat list \<Rightarrow> npfloat" where
  "np_mean vs =
     (if vs = [] then NaN
      else case np_sum vs of Fin s \<Rightarrow> Fin (s / real (length vs)) | v \<Rightarrow> v)"

section \<open>The reference solution (analytical\_solution.py)\<close>

text \<open>
  The loop \<^verbatim>\<open>for n in range(1, n_terms + 1)\<close> over the list of its indices. The divisions
  \<^verbatim>\<open>n * np.pi / L\<close> and \<^verbatim>\<open>numerator / denominator\<close> are Python divisions and raise on
  a zero divisor; the accumulator \<open>c_transient\<close> is updated elementwise.
\<close>

fun transient_loop ::
  "parameter_set \<Rightarrow> real \<Rightarrow> real list \<Rightarrow> int list \<Rightarrow> real list \<Rightarrow> py_error + real list" where
  "transient_loop p t x_arr [] c_transient = Inr c_transient"
| "transient_loop p t x_arr (n # ns) c_transient =
     (if L p = 0 then Inl ZeroDivisionError
      else
        let lambda_n = (real_of_int n * pi / L p) ^ 2;
            numerator = - 2 * c0 p * real_of_int n * pi;
            denominator = (L p) ^ 2 * ((k p / D p) + lambda_n)
        in if denominator = 0 then Inl ZeroDivisionError
           else
             let b_n = numerator / denominator;
                 decay = exp (- (D p * lambda_n + k p) * t);
                 spatial = map (\<lambda>x. sin (real_of_int n * pi * x / L p)) x_arr
             in transient_loop p t x_arr ns
                  (map2 (\<lambda>c s. c + b_n * s * decay) c_transient spatial))"

text \<open>
  \<^verbatim>\<open>analytical_concentration(x_arr, t, p, n_terms)\<close>. \<^verbatim>\<open>k / D\<close> is a Python division;
  \<^verbatim>\<open>np.sqrt\<close> of a negative number is NaN, and then every entry of the steady term is;
  the quotient of the two hyperbolic sines is numpy's array division.
\<close>

definition analytical_concentration ::
  "real list \<Rightarrow> real \<Rightarrow> parameter_set \<Rightarrow> int \<Rightarrow> py_error + npfloat list" where
  "analytical_concentration x_arr t p n_terms =
     (if D p = 0 then Inl ZeroDivisionError
      else
        let c_infinity =
              (case np_sqrt_real (k p / D p) of
                 Fin gamma \<Rightarrow>
                   map (\<lambda>x. np_true_divide (c0 p * sinh (gamma * (L p - x))) (sinh (gamma * L p)))
                     x_arr
               | _ \<Rightarrow> map (\<lambda>x. NaN) x_arr);
            c_transient = replicate (length x_arr) 0
        in case transient_loop p t x_arr [1..n_terms] c_transient of
             Inl e \<Rightarrow> Inl e
           | Inr c_tr \<Rightarrow> Inr (map2 (\<lambda>u v. np_add u (Fin v)) c_infinity c_tr))"

section \<open>The convergence study (result\_and\_plot.py, lines 31 to 63)\<close>

text \<open>
  \<^verbatim>\<open>np.sqrt(np.mean((c_num_conv - c_ana_conv)**2))\<close>; the two arrays live on the same
  grid and have the same length.
\<close>

definition rms_error :: "real list \<Rightarrow> npfloat list \<Rightarrow> npfloat" where
  "rms_error c_num c_ana =
     np_sqrt (np_mean (map np_square (map2 (\<lambda>a b. np_subtract (Fin a) b) c_num c_ana)))"

definition grids :: "int list" where
  "grids = [20, 40, 80, 160, 320]"

definition Nt_conv :: "int \<Rightarrow> int" where
  "Nt_conv N = 2 * N ^ 2"

text \<open>Lines 43 to 50: the error of one resolution (\<open>n_terms\<close> has its default, 50).\<close>

definition error_at :: "parameter_set \<Rightarrow> int \<Rightarrow> py_error + npfloat" where
  "error_at p N =
     (case ftcs_solver p N (Nt_conv N) of
        Inl e \<Rightarrow> Inl e
      | Inr (out, x_grid, c_num_conv) \<Rightarrow>
          (case analytical_concentration x_grid (T_final p) p 50 of
             Inl e \<Rightarrow> Inl e
           | Inr c_ana_conv \<Rightarrow> Inr (rms_error c_num_conv c_ana_conv)))"

text \<open>
  The loop over the grids, with the two lists it appends to. The computation of the
  error is a parameter \<open>err\<close>, so that the loop can also be studied for errors that only
  floating point produces (overflow); the script runs it with \<open>error_at p\<close>. A non-finite
  error leaves the loop (\<^verbatim>\<open>break\<close>); \<^verbatim>\<open>params['L'] / N\<close> is a Python division.
\<close>

fun convergence_loop ::
  "(int \<Rightarrow> py_error + npfloat) \<Rightarrow> parameter_set \<Rightarrow> int list \<Rightarrow> real list \<times> real list \<Rightarrow>
     py_error + (real list \<times> real list)" where
  "convergence_loop err p [] (errors, dx_values) = Inr (errors, dx_values)"
| "convergence_loop err p (N # Ns) (errors, dx_values) =
     (case err N of
        Inl e \<Rightarrow> Inl e
      | Inr (Fin error) \<Rightarrow>
          if N = 0 then Inl ZeroDivisionError
          else convergence_loop err p Ns (errors @ [error], dx_values @ [L p / real_of_int N])
      | Inr _ \<Rightarrow> Inr (errors, dx_values))"

text \<open>
  \<^verbatim>\<open>np.polyfit(x, y, 1)\<close>: numpy rejects an empty \<open>x\<close> and lists of different lengths
  with a TypeError and hands everything else to its least-squares routine, which is the
  parameter \<open>lstsq\<close> here.
\<close>

definition np_polyfit1 ::
  "(npfloat list \<Rightarrow> npfloat list \<Rightarrow> py_error + (npfloat \<times> npfloat)) \<Rightarrow>
     npfloat list \<Rightarrow> npfloat list \<Rightarrow> py_error + (npfloat \<times> npfloat)" where
  "np_polyfit1 lstsq x y =
     (if x = [] then Inl TypeError
      else if length x \<noteq> length y then Inl TypeError
      else lstsq x y)"

text \<open>
  An exact-arithmetic model of that routine for a line. numpy scales the two columns of
  the matrix by their norms and solves by a singular value decomposition. A non-finite
  abscissa, or abscissae that are all 0 (the scaling divides 0 by 0), put NaN into the
  matrix and numpy raises LinAlgError. Otherwise a non-finite ordinate makes both
  coefficients NaN, without an exception. On finite data the result is the
  least-squares solution when it is unique and, when all abscissae are one nonzero
  value, the minimum-norm solution of the scaled system.
\<close>

fun fin_values :: "npfloat list \<Rightarrow> real list option" where
  "fin_values [] = Some []"
| "fin_values (Fin a # vs) = (case fin_values vs of None \<Rightarrow> None | Some as \<Rightarrow> Some (a # as))"
| "fin_values (v # vs) = None"

definition lstsq_line :: "npfloat list \<Rightarrow> npfloat list \<Rightarrow> py_error + (npfloat \<times> npfloat)" where
  "lstsq_line xs ys =
     (case fin_values xs of
        None \<Rightarrow> Inl LinAlgError
      | Some x \<Rightarrow>
          let n = real (length x);
              sx = sum_list x;
              sxx = sum_list (map (\<lambda>a. a ^ 2) x);
              det = n * sxx - sx ^ 2
          in if sxx = 0 then Inl LinAlgError
             else
               (case fin_values ys of
                  None \<Rightarrow> Inr (NaN, NaN)
                | Some y \<Rightarrow>
                    let sy = sum_list y;
                        sxy = sum_list (map2 (\<lambda>a b. a * b) x y)
                    in if det \<noteq> 0
                       then Inr (Fin ((n * sxy - sx * sy) / det), Fin ((sy * sxx - sx * sxy) / det))
                       else Inr (Fin (sy / (2 * sx)), Fin (sy / (2 * n)))))"

text \<open>
  Lines 40 to 63: the loop, then the fit of \<open>log(error)\<close> against \<open>log(dx)\<close>. The result
  is the recorded spacings and errors with the fitted slope and intercept.
\<close>

definition study_with ::
  "(int \<Rightarrow> py_error + npfloat) \<Rightarrow>
   (npfloat list \<Rightarrow> npfloat list \<Rightarrow> py_error + (npfloat \<times> npfloat)) \<Rightarrow>
   parameter_set \<Rightarrow> int list \<Rightarrow>
     py_error + (real list \<times> real list \<times> npfloat \<times> npfloat)" where
  "study_with err lstsq p Ns =
     (case convergence_loop err p Ns ([], []) of
        Inl e \<Rightarrow> Inl e
      | Inr (errors, dx_values) \<Rightarrow>
          let log_dx = map np_log dx_values;
              log_err = map np_log errors
          in case np_polyfit1 lstsq log_dx log_err of
               Inl e \<Rightarrow> Inl e
             | Inr (slope, intercept) \<Rightarrow> Inr (dx_values, errors, slope, intercept))"

definition convergence_study ::
  "parameter_set \<Rightarrow> py_error + (real list \<times> real list \<times> npfloat \<times> npfloat)" where
  "convergence_study p = study_with (error_at p) lstsq_line p grids"

section \<open>The code in floating point\<close>

text \<open>
  The definitions above compute with exact reals. The stability test of the solver and
  the RMS error depend on how the doubles round, so both are given a second time, with
  every arithmetic result passed through a rounding function \<open>fl\<close>, in the order in which
  Python and numpy evaluate the expressions. With the identity for \<open>fl\<close> these are the
  definitions above; with \<open>binary64\<close> for \<open>fl\<close> they compute what the code computes, as
  long as no result overflows.

  \<open>binary64\<close> is the rounding of IEEE 754 double precision: to the nearest number with a
  significand of 53 bits, a tie to the one whose last bit is 0, with gradual underflow
  below \<open>2\<^sup>-\<^sup>1\<^sup>0\<^sup>2\<^sup>2\<close>. The doubles around \<open>x\<close> are the multiples of \<open>2\<^sup>e\<^sup>-\<^sup>5\<^sup>2\<close>, where
  \<open>e\<close> is the larger of \<open>\<lfloor>log\<^sub>2 \<bar>x\<bar>\<rfloor>\<close> and \<open>-1022\<close>. Overflow to an infinity is not modelled.
\<close>

definition round_half_even :: "real \<Rightarrow> int" where
  "round_half_even r =
     (let f = \<lfloor>r\<rfloor>; d = r - of_int f
      in if d < 1 / 2 then f
         else if 1 / 2 < d then f + 1
         else if even f then f else f + 1)"

definition binary64 :: "real \<Rightarrow> real" where
  "binary64 x =
     (if x = 0 then 0
      else
        let e = max \<lfloor>log 2 \<bar>x\<bar>\<rfloor> (- 1022);
            ulp = 2 powr (of_int (e - 52))
        in of_int (round_half_even (x / ulp)) * ulp)"

text \<open>
  \<^verbatim>\<open>np.linspace(start, stop, num)\<close> as numpy computes it: \<^verbatim>\<open>delta = stop - start\<close>,
  \<^verbatim>\<open>step = delta / div\<close> with \<^verbatim>\<open>div = num - 1\<close>, then \<^verbatim>\<open>arange(num) * step + start\<close>
  (or \<^verbatim>\<open>arange(num) / div * delta + start\<close> when the step is 0), and the last entry is
  set to \<open>stop\<close> when there is more than one.
\<close>

definition np_linspace_fl :: "(real \<Rightarrow> real) \<Rightarrow> real \<Rightarrow> real \<Rightarrow> int \<Rightarrow> py_error + real list" where
  "np_linspace_fl fl start stop num =
     (if num < 0 then Inl ValueError
      else if num = 0 then Inr []
      else
        let delta = fl (stop - start);
            dv = real_of_int (num - 1)
        in if num = 1 then Inr [fl (fl (0 * delta) + start)]
           else
             let step = fl (delta / dv);
                 y = (if step = 0
                      then map (\<lambda>i. fl (fl (real i / dv) * delta)) [0..<nat num]
                      else map (\<lambda>i. fl (real i * step)) [0..<nat num]);
                 y1 = map (\<lambda>v. fl (v + start)) y
             in Inr (y1[nat num - 1 := stop]))"

text \<open>
  Line 40 in Python's order of evaluation:
  \<^verbatim>\<open>(c[1:-1] + alpha * ((c[2:] - 2*c[1:-1]) + c[:-2])) - (k * dt) * c[1:-1]\<close>, every
  operation rounded.
\<close>

definition ftcs_step_fl ::
  "(real \<Rightarrow> real) \<Rightarrow> parameter_set \<Rightarrow> real \<Rightarrow> real \<Rightarrow> real list \<times> real list \<Rightarrow>
     real list \<times> real list" where
  "ftcs_step_fl fl p alpha dt s =
     (let c = fst s; c_new = snd s;
          c_i = butlast (drop 1 c);
          c_ip1 = drop 2 c;
          c_im1 = take (length c - 2) c;
          rhs = map (\<lambda>(ci, cip1, cim1).
                       fl (fl (ci + fl (alpha * fl (fl (cip1 - fl (2 * ci)) + cim1)))
                             - fl (fl (k p * dt) * ci)))
                    (zip c_i (zip c_ip1 c_im1));
          c_new1 = take 1 c_new @ rhs @ drop (1 + length rhs) c_new;
          c_new2 = c_new1[0 := c0 p];
          c_new3 = c_new2[length c_new2 - 1 := 0]
      in (c_new3, c_new3))"

fun time_stepping_fl ::
  "(real \<Rightarrow> real) \<Rightarrow> parameter_set \<Rightarrow> real \<Rightarrow> real \<Rightarrow> nat \<Rightarrow> real list \<times> real list \<Rightarrow>
     real list \<times> real list" where
  "time_stepping_fl fl p alpha dt 0 s = s"
| "time_stepping_fl fl p alpha dt (Suc n) s =
     time_stepping_fl fl p alpha dt n (ftcs_step_fl fl p alpha dt s)"

text \<open>
  \<^verbatim>\<open>ftcs_solver(p, Nx, Nt)\<close> with the roundings of lines 9, 10 and 14: \<open>dx\<close>, \<open>dt\<close>,
  \<^verbatim>\<open>D * dt\<close>, \<^verbatim>\<open>dx**2\<close> and their quotient \<open>alpha\<close> are doubles, and line 16 compares
  this \<open>alpha\<close> with 0.5.
\<close>

definition ftcs_solver_fl ::
  "(real \<Rightarrow> real) \<Rightarrow> parameter_set \<Rightarrow> int \<Rightarrow> int \<Rightarrow>
     py_error + (printed list \<times> real list \<times> real list)" where
  "ftcs_solver_fl fl p Nx Nt =
     (if Nx = 0 then Inl ZeroDivisionError
      else if Nt = 0 then Inl ZeroDivisionError
      else
        let dx = fl (L p / real_of_int Nx);
            dt = fl (T_final p / real_of_int Nt)
        in case np_linspace_fl fl 0 (L p) (Nx + 1) of
             Inl e \<Rightarrow> Inl e
           | Inr x \<Rightarrow>
               if fl (dx ^ 2) = 0 then Inl ZeroDivisionError
               else
                 let alpha = fl (fl (D p * dt) / fl (dx ^ 2));
                     stability_limit = 1 / 2;
                     out = (if alpha > stability_limit
                            then [WARNING_Unstable alpha, Reduce_dt_or_increase_dx] else []);
                     c = replicate (nat (Nx + 1)) 0;
                     c_new = replicate (nat (Nx + 1)) 0
                 in if c = [] then Inl IndexError
                    else Inr (out, x,
                           fst (time_stepping_fl fl p alpha dt (nat Nt) (c[0 := c0 p], c_new))))"

text \<open>A numpy value after rounding: the infinities and NaN are left as they are.\<close>

definition np_rnd :: "(real \<Rightarrow> real) \<Rightarrow> npfloat \<Rightarrow> npfloat" where
  "np_rnd fl v = (case v of Fin r \<Rightarrow> Fin (fl r) | w \<Rightarrow> w)"

text \<open>
  The sum that \<^verbatim>\<open>np.mean\<close> takes. For an array of fewer than 8 entries numpy adds the
  entries to 0 one after the other, from the first: this is \<open>seq_reduce\<close>. Longer arrays
  are added in blocks and pairs; the summation is therefore a parameter \<open>reduce\<close> of the
  mean and of the RMS error.
\<close>

definition seq_reduce :: "(real \<Rightarrow> real) \<Rightarrow> npfloat list \<Rightarrow> npfloat" where
  "seq_reduce fl vs = foldl (\<lambda>acc v. np_rnd fl (np_add acc v)) (Fin 0) vs"

definition np_mean_fl ::
  "(real \<Rightarrow> real) \<Rightarrow> (npfloat list \<Rightarrow> npfloat) \<Rightarrow> npfloat list \<Rightarrow> npfloat" where
  "np_mean_fl fl reduce vs =
     (if vs = [] then NaN
      else np_rnd fl (case reduce vs of Fin s \<Rightarrow> Fin (s / real (length vs)) | v \<Rightarrow> v))"

text \<open>
  \<^verbatim>\<open>np.sqrt(np.mean((c_num_conv - c_ana_conv)**2))\<close> with the difference, the square,
  the sum, the quotient and the root rounded.
\<close>

definition rms_error_fl ::
  "(real \<Rightarrow> real) \<Rightarrow> (npfloat list \<Rightarrow> npfloat) \<Rightarrow> real list \<Rightarrow> npfloat list \<Rightarrow> npfloat" where
  "rms_error_fl fl reduce c_num c_ana =
     np_rnd fl (np_sqrt (np_mean_fl fl reduce
       (map (\<lambda>v. np_rnd fl (np_square v))
          (map2 (\<lambda>a b. np_rnd fl (np_subtract (Fin a) b)) c_num c_ana))))"

section \<open>Example inputs\<close>

text \<open>Small parameter sets on which the theorems below are evaluated.\<close>

definition p1 :: parameter_set where
  "p1 = \<lparr>L = 1, D = 1, k = 1, c0 = 1, T_final = 1\<rparr>"

definition p2 :: parameter_set where
  "p2 = \<lparr>L = 1, D = 1, k = 0, c0 = 1, T_final = 1\<rparr>"

text \<open>
  A parameter set whose entries are doubles and whose stability ratio at \<open>Nx = 3\<close>,
  \<open>Nt = 9\<close> is \<open>1/2\<close> in exact arithmetic.
\<close>

definition p3 :: parameter_set where
  "p3 = \<lparr>L = 22, D = 11, k = 0, c0 = 1, T_final = 22\<rparr>"

text \<open>
  Two error functions for the loop of the study, as floating point can produce them: the
  first overflows at the third resolution, the second at every resolution but the first.
\<close>

definition err_overflow_at_80 :: "int \<Rightarrow> py_error + npfloat" where
  "err_overflow_at_80 N =
     (if N < 80 then Inr (Fin (1 / real_of_int (N * N)))
      else if N = 80 then Inr PInf
      else Inr (Fin 1))"

definition err_one_record :: "int \<Rightarrow> py_error + npfloat" where
  "err_one_record N = (if N = 20 then Inr (Fin (1 / 400)) else Inr PInf)"

text \<open>An error function whose first value is exactly 0 and whose second overflows.\<close>

definition err_zero_record :: "int \<Rightarrow> py_error + npfloat" where
  "err_zero_record N = (if N = 20 then Inr (Fin 0) else Inr PInf)"

text \<open>The squared difference at one node, as \<open>rms_error\<close> computes it.\<close>

definition sq_diff :: "real \<times> npfloat \<Rightarrow> npfloat" where
  "sq_diff = (\<lambda>(a, b). np_square (np_subtract (Fin a) b))"

section \<open>Rounding to a double\<close>

lemma round_half_even_nearest:
  assumes "of_int m - 1 / 2 < r" "r < of_int m + 1 / 2"
  shows "round_half_even r = m"
proof (cases "of_int m \<le> r")
  case True
  then have "\<lfloor>r\<rfloor> = m"
    using assms by (intro floor_unique) simp_all
  then show ?thesis
    using assms by (simp add: round_half_even_def Let_def)
next
  case False
  then have "\<lfloor>r\<rfloor> = m - 1"
    using assms by (intro floor_unique) simp_all
  then show ?thesis
    using assms False by (simp add: round_half_even_def Let_def)
qed

lemma round_half_even_int [simp]: "round_half_even (of_int m) = m"
  by (rule round_half_even_nearest) simp_all

lemma round_half_even_tie:
  assumes "r = of_int f + 1 / 2"
  shows "round_half_even r = (if even f then f else f + 1)"
proof -
  have "\<lfloor>r\<rfloor> = f"
    using assms by (intro floor_unique) simp_all
  then show ?thesis
    using assms by (simp add: round_half_even_def Let_def)
qed

lemma binary64_0 [simp]: "binary64 0 = 0"
  by (simp add: binary64_def)

lemma binary64_exponent:
  assumes "x \<noteq> 0" "2 powr (of_int e) \<le> \<bar>x\<bar>" "\<bar>x\<bar> < 2 powr (of_int (e + 1))" "- 1022 \<le> e"
  shows "binary64 x = of_int (round_half_even (x / 2 powr (of_int (e - 52)))) * 2 powr (of_int (e - 52))"
proof -
  have "\<lfloor>log 2 \<bar>x\<bar>\<rfloor> = e"
    using assms by (subst floor_log_eq_powr_iff) simp_all
  then show ?thesis
    using assms by (simp add: binary64_def Let_def max_def)
qed

lemma round_half_even_0 [simp]: "round_half_even 0 = 0"
  using round_half_even_int [of 0] by simp

lemma round_half_even_numeral [simp]: "round_half_even (numeral n) = numeral n"
  using round_half_even_int [of "numeral n"] by simp

lemma binary64_ge1:
  assumes "2 ^ n \<le> \<bar>x\<bar>" "\<bar>x\<bar> < 2 * 2 ^ n"
  shows "binary64 x = of_int (round_half_even (x * 2 ^ 52 / 2 ^ n)) * 2 ^ n / 2 ^ 52"
proof -
  have x: "x \<noteq> 0"
    using assms(1) by (metis abs_zero not_le zero_less_numeral zero_less_power)
  have p: "2 powr (real n) = (2::real) ^ n" "2 powr (real n + 1) = (2::real) * 2 ^ n"
    by (simp_all add: powr_realpow powr_add)
  have q: "2 powr (real n - 52) = (2::real) ^ n / 2 ^ 52"
    by (simp add: powr_diff powr_realpow)
  have "binary64 x =
      of_int (round_half_even (x / 2 powr (real n - 52))) * 2 powr (real n - 52)"
    using binary64_exponent [of x "int n"] x assms by (simp add: p)
  then show ?thesis
    by (simp only: q) simp
qed

lemma binary64_lt1:
  assumes "n \<le> 1022" "1 / 2 ^ n \<le> \<bar>x\<bar>" "\<bar>x\<bar> < 2 / 2 ^ n"
  shows "binary64 x = of_int (round_half_even (x * (2 ^ n * 2 ^ 52))) / (2 ^ n * 2 ^ 52)"
proof -
  have x: "x \<noteq> 0"
    using assms(2) by (metis abs_zero not_le zero_less_divide_1_iff zero_less_numeral zero_less_power)
  have p: "2 powr (- real n) = 1 / (2::real) ^ n" "2 powr (1 - real n) = (2::real) / 2 ^ n"
    by (simp_all add: powr_realpow powr_diff powr_minus_divide)
  have q: "2 powr (- real n - 52) = 1 / ((2::real) ^ n * 2 ^ 52)"
    by (simp add: powr_diff powr_realpow powr_minus_divide)
  have "binary64 x =
      of_int (round_half_even (x / 2 powr (- real n - 52))) * 2 powr (- real n - 52)"
    using binary64_exponent [of x "- int n"] x assms by (simp add: p)
  then show ?thesis
    by (simp only: q) simp
qed

lemma binary64_subnormal:
  assumes "\<bar>x\<bar> < 1 / 2 ^ 1022"
  shows "binary64 x = of_int (round_half_even (x * 2 ^ 1074)) / 2 ^ 1074"
proof (cases "x = 0")
  case True
  then show ?thesis by simp
next
  case False
  define N :: real where "N = 2 ^ 1074"
  have "\<bar>x\<bar> < 2 powr (of_int (- 1022))"
    using assms by (simp add: powr_minus_divide)
  then have "log 2 \<bar>x\<bar> < of_int (- 1022)"
    using False by (subst log_less_iff) simp_all
  then have "\<lfloor>log 2 \<bar>x\<bar>\<rfloor> < - 1022"
    by (simp add: floor_less_iff)
  then have e: "max \<lfloor>log 2 \<bar>x\<bar>\<rfloor> (- 1022) = - 1022"
    by simp
  have q: "2 powr (of_int (- 1022 - 52)) = 1 / N"
    unfolding N_def by (simp add: powr_minus_divide)
  have "binary64 x = of_int (round_half_even (x / (1 / N))) * (1 / N)"
    using False by (simp only: binary64_def Let_def e q if_False)
  then show ?thesis
    unfolding N_def [symmetric] by simp
qed

lemma binary64_inverse_power2:
  assumes "n \<le> 1022"
  shows "binary64 (1 / 2 ^ n) = 1 / 2 ^ n"
proof -
  have "(1 / 2 ^ n) * (2 ^ n * 2 ^ 52) = (of_int (2 ^ 52) :: real)"
    by simp
  then have "round_half_even ((1 / 2 ^ n) * (2 ^ n * 2 ^ 52)) = 2 ^ 52"
    by (simp only: round_half_even_int)
  moreover have "(1::real) / 2 ^ n < 2 / 2 ^ n"
    by (simp add: divide_strict_right_mono)
  ultimately show ?thesis
    using binary64_lt1 [OF assms, of "1 / 2 ^ n"] by simp
qed

section \<open>The solver: one pass, the loop, the result\<close>

lemma ftcs_step_length:
  "length (fst s) = length (snd s) \<Longrightarrow> length (fst (ftcs_step p a dt s)) = length (snd s)"
  by (auto simp: ftcs_step_def Let_def min_def)

lemma ftcs_step_snd: "snd (ftcs_step p a dt s) = fst (ftcs_step p a dt s)"
  by (simp add: ftcs_step_def Let_def)

lemma ftcs_step_nth:
  assumes len: "length c = length cn" and m: "2 \<le> length c"
    and i: "i < length c"
  shows "fst (ftcs_step p a dt (c, cn)) ! i =
     (if i = length c - 1 then 0
      else if i = 0 then c0 p
      else c ! i + a * (c ! (i + 1) - 2 * c ! i + c ! (i - 1)) - k p * dt * c ! i)"
proof -
  define f where "f = (\<lambda>(ci, cip1, cim1). ci + a * (cip1 - 2 * ci + cim1) - k p * dt * ci)"
  define rhs where "rhs = map f (zip (butlast (drop 1 c)) (zip (drop 2 c) (take (length c - 2) c)))"
  define c1 where "c1 = take 1 cn @ rhs @ drop (1 + length rhs) cn"
  have lr: "length rhs = length c - 2"
    by (simp add: rhs_def)
  have l1: "length c1 = length c"
    using len m by (simp add: c1_def lr)
  have "fst (ftcs_step p a dt (c, cn)) = (c1[0 := c0 p])[length (c1[0 := c0 p]) - 1 := 0]"
    by (simp only: ftcs_step_def Let_def c1_def rhs_def f_def fst_conv snd_conv)
  then have step: "fst (ftcs_step p a dt (c, cn)) = (c1[0 := c0 p])[length c - 1 := 0]"
    by (simp add: l1)
  show ?thesis
  proof (cases "i = length c - 1")
    case True
    then show ?thesis using i l1 by (simp add: step)
  next
    case last: False
    show ?thesis
    proof (cases "i = 0")
      case True
      then show ?thesis using last i l1 by (simp add: step)
    next
      case False
      then have j: "i - 1 < length rhs" using last i lr by simp
      have "fst (ftcs_step p a dt (c, cn)) ! i = c1 ! i"
        using last False by (simp add: step)
      also have "\<dots> = rhs ! (i - 1)"
        using False j len m by (simp add: c1_def nth_append)
      also have "\<dots> = f (c ! i, c ! (i + 1), c ! (i - 1))"
        using j lr False last i by (simp add: rhs_def nth_butlast)
      finally show ?thesis using last False by (simp add: f_def)
    qed
  qed
qed

lemma ftcs_step_reads_current_only:
  assumes "length c = length cn" "length c = length cn'" "2 \<le> length c"
  shows "fst (ftcs_step p a dt (c, cn)) = fst (ftcs_step p a dt (c, cn'))"
proof (rule nth_equalityI)
  show "length (fst (ftcs_step p a dt (c, cn))) = length (fst (ftcs_step p a dt (c, cn')))"
    using assms by (simp add: ftcs_step_length)
next
  fix i assume "i < length (fst (ftcs_step p a dt (c, cn)))"
  then have "i < length c"
    using assms by (simp add: ftcs_step_length)
  then show "fst (ftcs_step p a dt (c, cn)) ! i = fst (ftcs_step p a dt (c, cn')) ! i"
    using assms by (simp add: ftcs_step_nth)
qed

lemma time_stepping_Suc:
  "time_stepping p a dt (Suc n) s = ftcs_step p a dt (time_stepping p a dt n s)"
  by (induction n arbitrary: s) simp_all

lemma time_stepping_length:
  "length c = length cn \<Longrightarrow>
     length (fst (time_stepping p a dt n (c, cn))) = length c \<and>
     length (snd (time_stepping p a dt n (c, cn))) = length c"
proof (induction n)
  case 0
  then show ?case by simp
next
  case (Suc n)
  then show ?case
    by (simp only: time_stepping_Suc ftcs_step_snd) (simp add: ftcs_step_length)
qed

lemma field_after_0:
  "field_after p Nx Nt 0 = (replicate (nat (Nx + 1)) 0)[0 := c0 p]"
  by (simp add: field_after_def)

lemma field_after_length: "length (field_after p Nx Nt n) = nat (Nx + 1)"
  by (simp add: field_after_def time_stepping_length)

lemma field_after_Suc_nth:
  assumes "1 \<le> Nx" "i \<le> nat Nx"
  shows "field_after p Nx Nt (Suc n) ! i =
     (if i = nat Nx then 0
      else if i = 0 then c0 p
      else field_after p Nx Nt n ! i
           + ftcs_alpha p Nx Nt *
               (field_after p Nx Nt n ! (i + 1) - 2 * field_after p Nx Nt n ! i
                 + field_after p Nx Nt n ! (i - 1))
           - k p * (T_final p / real_of_int Nt) * field_after p Nx Nt n ! i)"
proof -
  let ?s0 = "((replicate (nat (Nx + 1)) 0)[0 := c0 p], replicate (nat (Nx + 1)) (0::real))"
  let ?s = "time_stepping p (ftcs_alpha p Nx Nt) (T_final p / real_of_int Nt) n ?s0"
  have l: "length (fst ?s) = nat (Nx + 1)" "length (snd ?s) = nat (Nx + 1)"
    by (simp_all add: time_stepping_length)
  have n1: "nat (Nx + 1) - 1 = nat Nx" "2 \<le> nat (Nx + 1)" "i < nat (Nx + 1)"
    using assms by simp_all
  have "field_after p Nx Nt (Suc n) ! i =
          fst (ftcs_step p (ftcs_alpha p Nx Nt) (T_final p / real_of_int Nt) (fst ?s, snd ?s)) ! i"
    by (simp only: field_after_def time_stepping_Suc prod.collapse)
  also have "\<dots> = (if i = length (fst ?s) - 1 then 0
      else if i = 0 then c0 p
      else fst ?s ! i + ftcs_alpha p Nx Nt * (fst ?s ! (i + 1) - 2 * fst ?s ! i + fst ?s ! (i - 1))
           - k p * (T_final p / real_of_int Nt) * fst ?s ! i)"
    by (rule ftcs_step_nth) (simp_all only: l n1)
  finally show ?thesis
    by (simp only: l n1 field_after_def)
qed

lemma ftcs_solver_valid:
  assumes "1 \<le> Nx" "Nt \<noteq> 0" "L p \<noteq> 0"
  shows "ftcs_solver p Nx Nt =
     Inr (if ftcs_alpha p Nx Nt > 1 / 2
          then [WARNING_Unstable (ftcs_alpha p Nx Nt), Reduce_dt_or_increase_dx] else [],
          (map (\<lambda>i. real i * (L p / real_of_int Nx) + 0) [0..<nat (Nx + 1)])[nat (Nx + 1) - 1 := L p],
          field_after p Nx Nt (nat Nt))"
  using assms
  by (simp add: ftcs_solver_def np_linspace_def Let_def field_after_def ftcs_alpha_def)

lemma linspace_grid:
  assumes "1 \<le> Nx" "b \<noteq> 0"
  shows "(map (\<lambda>i. real i * (b / real_of_int Nx) + 0) [0..<nat (Nx + 1)])[nat (Nx + 1) - 1 := b]
       = map (\<lambda>i. real i * (b / real_of_int Nx)) [0..<nat (Nx + 1)]"
  using assms by (auto intro!: nth_equalityI simp: nth_list_update)

lemma ftcs_alpha_expand:
  "ftcs_alpha p Nx Nt = D p * (T_final p / real_of_int Nt) / (L p / real_of_int Nx)\<^sup>2"
  by (simp add: ftcs_alpha_def)

lemma p1_simps: "L p1 = 1" "D p1 = 1" "k p1 = 1" "c0 p1 = 1" "T_final p1 = 1"
  by (simp_all add: p1_def)

lemma field_p1_0: "field_after p1 3 2 0 = [1, 0, 0, 0]"
  by (simp add: field_after_def ftcs_alpha_def ftcs_step_def p1_simps eval_nat_numeral Let_def)

lemma field_p1_1: "field_after p1 3 2 (Suc 0) = [1, 9/2, 0, 0]"
  by (simp add: field_after_def ftcs_alpha_def ftcs_step_def p1_simps eval_nat_numeral Let_def)

lemma field_p1_2: "field_after p1 3 2 2 = [1, - (135 / 4), 81 / 4, 0]"
  by (simp add: field_after_def ftcs_alpha_def ftcs_step_def p1_simps eval_nat_numeral Let_def)

lemma p2_simps: "L p2 = 1" "D p2 = 1" "k p2 = 0" "c0 p2 = 1" "T_final p2 = 1"
  by (simp_all add: p2_def)

subsection \<open>The update rule\<close>

text \<open>
  Claim C1. For a parameter set with \<open>L, D, T_final > 0\<close> and \<open>k \<ge> 0\<close>, \<open>Nx \<ge> 2\<close> and
  \<open>Nt \<ge> 1\<close>: the solver starts from the all-zero field with node 0 set to \<open>c0\<close>; in
  each of the \<open>Nt\<close> passes every interior node \<open>1 \<le> i \<le> Nx - 1\<close> of the next field is
  \<open>cur[i] + alpha * (cur[i+1] - 2 * cur[i] + cur[i-1]) - k * dt * cur[i]\<close>, computed from
  the field \<open>cur\<close> of the previous level only (a pass does not depend on what the buffer
  of the next level held before), with \<open>dx = L / Nx\<close>, \<open>dt = T_final / Nt\<close> and
  \<open>alpha = D * dt / dx\<^sup>2\<close>; the field after the last pass is returned with the grid
  \<open>0, dx, 2 dx, \<dots>, Nx dx\<close>.
\<close>

theorem ftcs_solver_interior_update:
  assumes "0 < L p" "0 < D p" "0 < T_final p" "0 \<le> k p" "2 \<le> Nx" "1 \<le> Nt"
  shows "let dx = L p / real_of_int Nx;
             dt = T_final p / real_of_int Nt;
             alpha = D p * dt / dx ^ 2;
             cur = field_after p Nx Nt
         in cur 0 = (replicate (nat Nx + 1) 0)[0 := c0 p] \<and>
            (\<forall>n<nat Nt. \<forall>i. 1 \<le> i \<and> i \<le> nat Nx - 1 \<longrightarrow>
               cur (Suc n) ! i =
                 cur n ! i + alpha * (cur n ! (i + 1) - 2 * cur n ! i + cur n ! (i - 1))
                   - k p * dt * cur n ! i) \<and>
            (\<forall>c c_new c_new'. length c = nat Nx + 1 \<and> length c_new = nat Nx + 1 \<and>
                 length c_new' = nat Nx + 1 \<longrightarrow>
               fst (ftcs_step p alpha dt (c, c_new)) = fst (ftcs_step p alpha dt (c, c_new'))) \<and>
            (\<exists>out. ftcs_solver p Nx Nt =
               Inr (out, map (\<lambda>i. real i * dx) [0..<nat Nx + 1], cur (nat Nt)))"
proof -
  have nx: "nat (Nx + 1) = nat Nx + 1" "1 \<le> Nx"
    using assms by simp_all
  have frozen: "fst (ftcs_step p a dt (c, c_new)) = fst (ftcs_step p a dt (c, c_new'))"
    if "length c = nat Nx + 1 \<and> length c_new = nat Nx + 1 \<and> length c_new' = nat Nx + 1"
    for a dt c c_new c_new'
    using that nx by (intro ftcs_step_reads_current_only) simp_all
  have init: "field_after p Nx Nt 0 = (replicate (nat Nx + 1) 0)[0 := c0 p]"
    by (simp add: field_after_0 nx)
  have upd: "field_after p Nx Nt (Suc n) ! i =
      field_after p Nx Nt n ! i
        + D p * (T_final p / real_of_int Nt) / (L p / real_of_int Nx)\<^sup>2 *
            (field_after p Nx Nt n ! (i + 1) - 2 * field_after p Nx Nt n ! i
               + field_after p Nx Nt n ! (i - 1))
        - k p * (T_final p / real_of_int Nt) * field_after p Nx Nt n ! i"
    if "1 \<le> i" "i \<le> nat Nx - 1" for n i
  proof -
    have "i \<le> nat Nx" "i \<noteq> nat Nx" "i \<noteq> 0"
      using that assms by simp_all
    then show ?thesis
      using field_after_Suc_nth [of Nx i p Nt n] nx by (simp add: ftcs_alpha_expand)
  qed
  have res: "ftcs_solver p Nx Nt =
      Inr (if ftcs_alpha p Nx Nt > 1 / 2
          then [WARNING_Unstable (ftcs_alpha p Nx Nt), Reduce_dt_or_increase_dx] else [],
           map (\<lambda>i. real i * (L p / real_of_int Nx)) [0..<nat Nx + 1],
           field_after p Nx Nt (nat Nt))"
    using assms ftcs_solver_valid [of Nx Nt p] linspace_grid [of Nx "L p"] by (simp add: nx)
  show ?thesis
    unfolding Let_def using init upd frozen res by blast
qed

theorem ftcs_solver_interior_update_witness:
  "0 < L p1 \<and> 0 < D p1 \<and> 0 < T_final p1 \<and> 0 \<le> k p1 \<and> (2::int) \<le> 3 \<and> (1::int) \<le> 2 \<and>
   field_after p1 3 2 0 = [1, 0, 0, 0] \<and>
   field_after p1 3 2 1 ! 1 = 0 + 9 / 2 * (0 - 2 * 0 + 1) - 1 * (1 / 2) * 0 \<and>
   field_after p1 3 2 2 ! 1 = 9 / 2 + 9 / 2 * (0 - 2 * (9 / 2) + 1) - 1 * (1 / 2) * (9 / 2) \<and>
   field_after p1 3 2 2 ! 2 = 0 + 9 / 2 * (0 - 2 * 0 + 9 / 2) - 1 * (1 / 2) * 0 \<and>
   ftcs_solver p1 3 2 =
     Inr ([WARNING_Unstable (9 / 2), Reduce_dt_or_increase_dx], [0, 1 / 3, 2 / 3, 1],
          [1, - (135 / 4), 81 / 4, 0])"
proof -
  have h: "0 < L p1" "0 < D p1" "0 < T_final p1" "0 \<le> k p1" "(2::int) \<le> 3" "(1::int) \<le> 2"
    by (simp_all add: p1_simps)
  have "\<exists>out. ftcs_solver p1 3 2 =
          Inr (out, map (\<lambda>i. real i * (L p1 / real_of_int 3)) [0..<nat 3 + 1],
               field_after p1 3 2 (nat 2))"
    using ftcs_solver_interior_update [OF h] by (simp add: Let_def)
  moreover have "ftcs_solver p1 3 2 =
     Inr ([WARNING_Unstable (9 / 2), Reduce_dt_or_increase_dx], [0, 1 / 3, 2 / 3, 1],
          [1, - (135 / 4), 81 / 4, 0])"
    using field_p1_2
    by (simp add: ftcs_solver_valid p1_simps ftcs_alpha_def power2_eq_square upt_rec [of _ 4])
  ultimately show ?thesis
    using h by (simp add: field_p1_0 field_p1_1 field_p1_2)
qed

subsection \<open>Length and boundary values\<close>

text \<open>
  Claim C2. For a valid parameter set, \<open>Nx \<ge> 2\<close> and \<open>Nt \<ge> 1\<close>, the field has exactly
  \<open>Nx + 1\<close> entries after every number of passes, its first entry is \<open>c0\<close> and its last
  entry is 0: before the first pass, after each pass, and in the field the solver
  returns. The interior update never reaches the two boundary entries.
\<close>

theorem ftcs_solver_boundary_invariant:
  assumes "0 < L p" "0 < D p" "0 < T_final p" "0 \<le> k p" "2 \<le> Nx" "1 \<le> Nt"
  shows "(\<forall>n. length (field_after p Nx Nt n) = nat Nx + 1 \<and>
              field_after p Nx Nt n ! 0 = c0 p \<and>
              field_after p Nx Nt n ! nat Nx = 0 \<and>
              hd (field_after p Nx Nt n) = c0 p \<and>
              last (field_after p Nx Nt n) = 0) \<and>
         (\<exists>out x. ftcs_solver p Nx Nt = Inr (out, x, field_after p Nx Nt (nat Nt)))"
proof -
  have nx: "nat (Nx + 1) = nat Nx + 1" "1 \<le> Nx" "0 < nat Nx"
    using assms by simp_all
  have len: "length (field_after p Nx Nt n) = nat Nx + 1" for n
    by (simp add: field_after_length nx)
  have bnd: "field_after p Nx Nt n ! 0 = c0 p \<and> field_after p Nx Nt n ! nat Nx = 0" for n
  proof (cases n)
    case 0
    then show ?thesis using nx by (simp add: field_after_0)
  next
    case (Suc m)
    then show ?thesis
      using nx field_after_Suc_nth [of Nx 0 p Nt m] field_after_Suc_nth [of Nx "nat Nx" p Nt m]
      by simp
  qed
  have ne: "field_after p Nx Nt n \<noteq> []" for n
    using len [of n] by auto
  have hl: "hd (field_after p Nx Nt n) = c0 p \<and> last (field_after p Nx Nt n) = 0" for n
    using bnd [of n] ne [of n] len [of n] by (simp add: hd_conv_nth last_conv_nth)
  have "\<exists>out x. ftcs_solver p Nx Nt = Inr (out, x, field_after p Nx Nt (nat Nt))"
    using assms ftcs_solver_valid [of Nx Nt p] by simp
  then show ?thesis
    using len bnd hl by blast
qed

theorem ftcs_solver_boundary_invariant_witness:
  "0 < L p1 \<and> 0 < D p1 \<and> 0 < T_final p1 \<and> 0 \<le> k p1 \<and> (2::int) \<le> 3 \<and> (1::int) \<le> 2 \<and>
   length (field_after p1 3 2 2) = 4 \<and> hd (field_after p1 3 2 2) = 1 \<and>
   last (field_after p1 3 2 2) = 0 \<and> field_after p1 3 2 1 ! 0 = 1 \<and> field_after p1 3 2 1 ! 3 = 0"
  using ftcs_solver_boundary_invariant [of p1 3 2]
  by (simp add: p1_simps field_p1_1 field_p1_2)

subsection \<open>The stability warning\<close>

lemma ftcs_step_fl_exact: "ftcs_step_fl (\<lambda>v. v) p alpha dt s = ftcs_step p alpha dt s"
  by (simp add: ftcs_step_fl_def ftcs_step_def)

lemma time_stepping_fl_exact:
  "time_stepping_fl (\<lambda>v. v) p alpha dt n s = time_stepping p alpha dt n s"
  by (induction n arbitrary: s) (simp_all add: ftcs_step_fl_exact)

lemma np_linspace_fl_exact: "np_linspace_fl (\<lambda>v. v) start stop num = np_linspace start stop num"
  by (auto simp: np_linspace_fl_def np_linspace_def Let_def o_def)

lemma ftcs_solver_fl_exact: "ftcs_solver_fl (\<lambda>v. v) p Nx Nt = ftcs_solver p Nx Nt"
  by (simp add: ftcs_solver_fl_def ftcs_solver_def np_linspace_fl_exact time_stepping_fl_exact
      Let_def split: sum.split)

lemma ftcs_step_fl_length:
  "length (fst s) = length (snd s) \<Longrightarrow>
     length (fst (ftcs_step_fl fl p a dt s)) = length (snd s) \<and>
     length (snd (ftcs_step_fl fl p a dt s)) = length (snd s)"
  by (auto simp: ftcs_step_fl_def Let_def min_def)

lemma time_stepping_fl_length:
  "length (fst s) = length (snd s) \<Longrightarrow>
     length (fst (time_stepping_fl fl p a dt n s)) = length (snd s)"
proof (induction n arbitrary: s)
  case 0
  then show ?case by simp
next
  case (Suc n)
  have "length (fst (ftcs_step_fl fl p a dt s)) = length (snd (ftcs_step_fl fl p a dt s))"
    using ftcs_step_fl_length [OF Suc.prems, of fl p a dt] by simp
  then have "length (fst (time_stepping_fl fl p a dt n (ftcs_step_fl fl p a dt s))) =
      length (snd (ftcs_step_fl fl p a dt s))"
    by (rule Suc.IH)
  then show ?case
    using ftcs_step_fl_length [OF Suc.prems, of fl p a dt] by simp
qed

lemma np_linspace_fl_length:
  "0 \<le> num \<Longrightarrow> \<exists>x. np_linspace_fl fl start stop num = Inr x \<and> length x = nat num"
  by (auto simp: np_linspace_fl_def Let_def)

lemma p3_simps: "L p3 = 22" "D p3 = 11" "k p3 = 0" "c0 p3 = 1" "T_final p3 = 22"
  by (simp_all add: p3_def)

lemma p3_dx: "binary64 (22 / 3) = 8256599316845909 / 2 ^ 50"
proof -
  have "round_half_even (22 / 3 * 2 ^ 52 / 2 ^ 2) = 8256599316845909"
    by (rule round_half_even_nearest) simp_all
  then show ?thesis
    by (simp add: binary64_ge1 [where n = 2])
qed

lemma p3_dt: "binary64 (22 / 9) = 5504399544563940 / 2 ^ 51"
proof -
  have "round_half_even (22 / 9 * 2 ^ 52 / 2 ^ 1) = 5504399544563940"
    by (rule round_half_even_nearest) simp_all
  then show ?thesis
    by (simp add: binary64_ge1 [where n = 1])
qed

lemma p3_Ddt: "binary64 (11 * (5504399544563940 / 2 ^ 51)) = 7568549373775418 / 2 ^ 48"
proof -
  have "round_half_even (11 * (5504399544563940 / 2 ^ 51) * 2 ^ 52 / 2 ^ 4) =
      (if even (7568549373775417 :: int) then 7568549373775417 else 7568549373775417 + 1)"
    by (rule round_half_even_tie) simp
  then have "round_half_even (11 * (5504399544563940 / 2 ^ 51) * 2 ^ 52 / 2 ^ 4) = 7568549373775418"
    by simp
  then show ?thesis
    by (simp add: binary64_ge1 [where n = 4])
qed

lemma p3_dx2: "binary64 ((8256599316845909 / 2 ^ 50) ^ 2) = 7568549373775416 / 2 ^ 47"
proof -
  have "round_half_even ((8256599316845909 / 2 ^ 50) ^ 2 * 2 ^ 52 / 2 ^ 5) = 7568549373775416"
    by (rule round_half_even_nearest) (simp_all add: power2_eq_square)
  then show ?thesis
    by (simp add: binary64_ge1 [where n = 5] power2_eq_square)
qed

lemma p3_alpha:
  "binary64 ((7568549373775418 / 2 ^ 48) / (7568549373775416 / 2 ^ 47)) = 1 / 2 + 1 / 2 ^ 53"
proof -
  have "round_half_even ((7568549373775418 / 2 ^ 48) / (7568549373775416 / 2 ^ 47)
      * (2 ^ 1 * 2 ^ 52)) = 4503599627370497"
    by (rule round_half_even_nearest) simp_all
  then show ?thesis
    by (simp add: binary64_lt1 [where n = 1])
qed

text \<open>
  Claim C3. The solver prints its stability warning exactly when \<open>alpha\<close>, the value that
  line 14 computes for \<^verbatim>\<open>(D * dt) / (dx**2)\<close>, is strictly greater than \<open>1/2\<close> (nothing
  is printed when that value is \<open>1/2\<close>), and the warning does not stop the run: with or
  without it the solver returns the grid and the field after \<open>Nt\<close> passes. This holds for
  every rounding \<open>fl\<close> of the arithmetic, so for the doubles and for exact arithmetic alike;
  the value that is compared and printed is the rounded one.
\<close>

theorem ftcs_solver_stability_warning:
  assumes "2 \<le> Nx" "1 \<le> Nt" "fl ((fl (L p / real_of_int Nx)) ^ 2) \<noteq> 0"
  shows "let dx = fl (L p / real_of_int Nx);
             dt = fl (T_final p / real_of_int Nt);
             alpha = fl (fl (D p * dt) / fl (dx ^ 2))
         in \<exists>out x c. ftcs_solver_fl fl p Nx Nt = Inr (out, x, c) \<and>
               length x = nat Nx + 1 \<and> length c = nat Nx + 1 \<and>
               c = fst (time_stepping_fl fl p alpha dt (nat Nt)
                          ((replicate (nat Nx + 1) 0)[0 := c0 p], replicate (nat Nx + 1) 0)) \<and>
               (out \<noteq> [] \<longleftrightarrow> 1 / 2 < alpha) \<and>
               out = (if 1 / 2 < alpha
                      then [WARNING_Unstable alpha, Reduce_dt_or_increase_dx] else [])"
proof -
  have nx: "nat (Nx + 1) = nat Nx + 1" "Nx \<noteq> 0" "Nt \<noteq> 0" "0 \<le> Nx + 1"
    using assms by simp_all
  obtain x where x: "np_linspace_fl fl 0 (L p) (Nx + 1) = Inr x" "length x = nat (Nx + 1)"
    using np_linspace_fl_length [OF nx(4)] by blast
  have len: "length (fst (time_stepping_fl fl p a dt n
      ((replicate (nat Nx + 1) 0)[0 := c0 p], replicate (nat Nx + 1) 0))) = nat Nx + 1" for a dt n
    by (simp add: time_stepping_fl_length)
  show ?thesis
    using assms(3) nx x len by (simp add: ftcs_solver_fl_def Let_def)
qed

text \<open>
  Two runs in double arithmetic. With \<open>L = 22\<close>, \<open>D = 11\<close>, \<open>T_final = 22\<close>, \<open>Nx = 3\<close> and
  \<open>Nt = 9\<close> the exact ratio is \<open>1/2\<close>; line 14 computes \<open>1/2 + 2\<^sup>-\<^sup>5\<^sup>3\<close>, which is greater than
  \<open>1/2\<close>, and the warning is printed. With \<open>L = D = T_final = 1\<close>, \<open>Nx = 2\<close> and \<open>Nt = 8\<close>
  line 14 computes \<open>1/2\<close> and nothing is printed.
\<close>

theorem ftcs_solver_stability_warning_witness:
  "(2::int) \<le> 3 \<and> (1::int) \<le> 9 \<and>
   binary64 ((binary64 (L p3 / real_of_int 3)) ^ 2) \<noteq> 0 \<and>
   D p3 * (T_final p3 / real_of_int 9) / (L p3 / real_of_int 3) ^ 2 = 1 / 2 \<and>
   binary64 (binary64 (D p3 * binary64 (T_final p3 / real_of_int 9))
      / binary64 ((binary64 (L p3 / real_of_int 3)) ^ 2)) = 1 / 2 + 1 / 2 ^ 53 \<and>
   (\<exists>x c. ftcs_solver_fl binary64 p3 3 9 =
      Inr ([WARNING_Unstable (1 / 2 + 1 / 2 ^ 53), Reduce_dt_or_increase_dx], x, c)) \<and>
   binary64 (binary64 (D p2 * binary64 (T_final p2 / real_of_int 8))
      / binary64 ((binary64 (L p2 / real_of_int 2)) ^ 2)) = 1 / 2 \<and>
   (\<exists>x c. ftcs_solver_fl binary64 p2 2 8 = Inr ([], x, c))"
proof -
  have a3: "binary64 (binary64 (D p3 * binary64 (T_final p3 / real_of_int 9))
      / binary64 ((binary64 (L p3 / real_of_int 3)) ^ 2)) = 1 / 2 + 1 / 2 ^ 53"
    by (simp only: p3_simps of_int_numeral p3_dx p3_dt p3_Ddt p3_dx2 p3_alpha)
  have n3: "binary64 ((binary64 (L p3 / real_of_int 3)) ^ 2) \<noteq> 0"
    by (simp only: p3_simps of_int_numeral p3_dx p3_dx2) simp
  have e3: "D p3 * (T_final p3 / real_of_int 9) / (L p3 / real_of_int 3) ^ 2 = 1 / 2"
    by (simp add: p3_simps power2_eq_square)
  have h3: "(2::int) \<le> 3" "(1::int) \<le> 9"
    by simp_all
  have w3: "\<exists>x c. ftcs_solver_fl binary64 p3 3 9 =
      Inr ([WARNING_Unstable (1 / 2 + 1 / 2 ^ 53), Reduce_dt_or_increase_dx], x, c)"
    using ftcs_solver_stability_warning [where fl = binary64 and p = p3 and Nx = 3 and Nt = 9,
        OF h3 n3]
    by (simp only: Let_def a3) auto
  have b: "binary64 (1 / 8) = 1 / 8" "binary64 (1 / 2) = 1 / 2" "binary64 (1 / 4) = 1 / 4"
    using binary64_inverse_power2 [of 3] binary64_inverse_power2 [of 1]
      binary64_inverse_power2 [of 2] by simp_all
  have a2: "binary64 (binary64 (D p2 * binary64 (T_final p2 / real_of_int 8))
      / binary64 ((binary64 (L p2 / real_of_int 2)) ^ 2)) = 1 / 2"
    by (simp add: p2_simps power2_eq_square b)
  have n2: "binary64 ((binary64 (L p2 / real_of_int 2)) ^ 2) \<noteq> 0"
    by (simp add: p2_simps power2_eq_square b)
  have h2: "(2::int) \<le> 2" "(1::int) \<le> 8"
    by simp_all
  have w2: "\<exists>x c. ftcs_solver_fl binary64 p2 2 8 = Inr ([], x, c)"
    using ftcs_solver_stability_warning [where fl = binary64 and p = p2 and Nx = 2 and Nt = 8,
        OF h2 n2]
    by (simp only: Let_def a2) auto
  show ?thesis
    using h3 n3 e3 a3 w3 a2 w2 by (simp only: simp_thms)
qed

subsection \<open>The discrete maximum principle\<close>

lemma ftcs_update_bounds:
  fixes a kd b u v w :: real
  assumes a: "0 \<le> a" and kd: "0 \<le> kd" and cfl: "2 * a + kd \<le> 1" and b: "0 \<le> b"
    and u: "0 \<le> u" "u \<le> b" and v: "0 \<le> v" "v \<le> b" and w: "0 \<le> w" "w \<le> b"
  shows "0 \<le> u + a * (v - 2 * u + w) - kd * u" and "u + a * (v - 2 * u + w) - kd * u \<le> b"
proof -
  have e: "u + a * (v - 2 * u + w) - kd * u = (1 - 2 * a - kd) * u + a * v + a * w"
    by (simp add: algebra_simps)
  have c: "0 \<le> 1 - 2 * a - kd"
    using cfl by simp
  have "0 \<le> (1 - 2 * a - kd) * u" "0 \<le> a * v" "0 \<le> a * w"
    using c a u v w by simp_all
  then show "0 \<le> u + a * (v - 2 * u + w) - kd * u"
    by (simp add: e)
  have "(1 - 2 * a - kd) * u \<le> (1 - 2 * a - kd) * b" "a * v \<le> a * b" "a * w \<le> a * b"
    using c a u v w by (simp_all add: mult_left_mono)
  then have "(1 - 2 * a - kd) * u + a * v + a * w \<le> (1 - 2 * a - kd) * b + a * b + a * b"
    by simp
  also have "\<dots> = b - kd * b"
    by (simp add: algebra_simps)
  also have "\<dots> \<le> b"
    using kd b by simp
  finally show "u + a * (v - 2 * u + w) - kd * u \<le> b"
    by (simp only: e)
qed

lemma field_after_bounds:
  assumes nx: "1 \<le> Nx" and a: "0 \<le> ftcs_alpha p Nx Nt"
    and kd: "0 \<le> k p * (T_final p / real_of_int Nt)"
    and cfl: "2 * ftcs_alpha p Nx Nt + k p * (T_final p / real_of_int Nt) \<le> 1"
    and b: "0 \<le> c0 p"
  shows "\<forall>i \<le> nat Nx. 0 \<le> field_after p Nx Nt n ! i \<and> field_after p Nx Nt n ! i \<le> c0 p"
proof (induction n)
  case 0
  have "0 \<le> (replicate (nat (Nx + 1)) 0)[0 := c0 p] ! i \<and>
        (replicate (nat (Nx + 1)) 0)[0 := c0 p] ! i \<le> c0 p" if "i \<le> nat Nx" for i
  proof -
    have "i < nat (Nx + 1)"
      using that nx by simp
    then show ?thesis
      using b by (cases "i = 0") (simp_all add: nth_list_update)
  qed
  then show ?case
    by (simp add: field_after_0)
next
  case (Suc n)
  show ?case
  proof (intro allI impI)
    fix i assume i: "i \<le> nat Nx"
    show "0 \<le> field_after p Nx Nt (Suc n) ! i \<and> field_after p Nx Nt (Suc n) ! i \<le> c0 p"
    proof (cases "i = nat Nx \<or> i = 0")
      case True
      then show ?thesis
        using b field_after_Suc_nth [OF nx i, of p Nt n] by auto
    next
      case False
      then have j: "i + 1 \<le> nat Nx" "i - 1 \<le> nat Nx"
        using i by simp_all
      have u: "0 \<le> field_after p Nx Nt n ! i" "field_after p Nx Nt n ! i \<le> c0 p"
        and v: "0 \<le> field_after p Nx Nt n ! (i + 1)" "field_after p Nx Nt n ! (i + 1) \<le> c0 p"
        and w: "0 \<le> field_after p Nx Nt n ! (i - 1)" "field_after p Nx Nt n ! (i - 1) \<le> c0 p"
        using Suc.IH i j by blast+
      show ?thesis
        using False field_after_Suc_nth [OF nx i, of p Nt n]
          ftcs_update_bounds [OF a kd cfl b u v w]
        by simp
    qed
  qed
qed

lemma field_p1_stable: "field_after p1 2 16 (Suc (Suc 0)) = [1, 23 / 64, 0]"
  by (simp add: field_after_def ftcs_alpha_def ftcs_step_def p1_simps eval_nat_numeral Let_def)

text \<open>
  Claim C9. For a valid parameter set with \<open>c0 > 0\<close> and \<open>k \<ge> 0\<close>, \<open>Nx \<ge> 2\<close>, \<open>Nt \<ge> 1\<close>
  and \<open>2 * alpha + k * dt \<le> 1\<close>, every entry of the field lies between 0 and \<open>c0\<close> after
  every number of passes, and so does every entry of the returned field: the coefficient
  \<open>1 - 2 * alpha - k * dt\<close> of \<open>cur[i]\<close> is not negative, so an interior value is a
  combination with non-negative weights of sum at most 1 of three values in that
  interval, and the boundary values are \<open>c0\<close> and 0.
\<close>

theorem ftcs_solver_maximum_principle:
  assumes "0 < L p" "0 < D p" "0 < T_final p" "0 \<le> k p" "0 < c0 p" "2 \<le> Nx" "1 \<le> Nt"
    and cfl: "2 * (D p * (T_final p / real_of_int Nt) / (L p / real_of_int Nx) ^ 2)
                + k p * (T_final p / real_of_int Nt) \<le> 1"
  shows "(\<forall>n. \<forall>v \<in> set (field_after p Nx Nt n). 0 \<le> v \<and> v \<le> c0 p) \<and>
         (\<exists>out x. ftcs_solver p Nx Nt = Inr (out, x, field_after p Nx Nt (nat Nt)))"
proof -
  have nx: "1 \<le> Nx" "nat (Nx + 1) = nat Nx + 1"
    using assms by simp_all
  have a: "0 \<le> ftcs_alpha p Nx Nt"
    using assms by (simp add: ftcs_alpha_def)
  have kd: "0 \<le> k p * (T_final p / real_of_int Nt)"
    using assms by simp
  have c: "2 * ftcs_alpha p Nx Nt + k p * (T_final p / real_of_int Nt) \<le> 1"
    using cfl by (simp only: ftcs_alpha_expand)
  have b: "0 \<le> c0 p"
    using assms by simp
  have "0 \<le> v \<and> v \<le> c0 p" if mem: "v \<in> set (field_after p Nx Nt n)" for n v
  proof -
    obtain i where "i < length (field_after p Nx Nt n)" "field_after p Nx Nt n ! i = v"
      using mem by (auto simp: in_set_conv_nth)
    then show ?thesis
      using field_after_bounds [OF nx(1) a kd c b, of n]
      by (auto simp add: field_after_length nx less_Suc_eq_le)
  qed
  moreover have "\<exists>out x. ftcs_solver p Nx Nt = Inr (out, x, field_after p Nx Nt (nat Nt))"
    using assms ftcs_solver_valid [of Nx Nt p] by simp
  ultimately show ?thesis by blast
qed

theorem ftcs_solver_maximum_principle_witness:
  "0 < L p1 \<and> 0 < D p1 \<and> 0 < T_final p1 \<and> 0 \<le> k p1 \<and> 0 < c0 p1 \<and> (2::int) \<le> 2 \<and> (1::int) \<le> 16 \<and>
   2 * (D p1 * (T_final p1 / real_of_int 16) / (L p1 / real_of_int 2) ^ 2)
     + k p1 * (T_final p1 / real_of_int 16) = 9 / 16 \<and>
   field_after p1 2 16 2 = [1, 23 / 64, 0] \<and>
   0 \<le> field_after p1 2 16 2 ! 1 \<and> field_after p1 2 16 2 ! 1 \<le> c0 p1"
proof -
  have h: "0 < L p1" "0 < D p1" "0 < T_final p1" "0 \<le> k p1" "0 < c0 p1" "(2::int) \<le> 2"
      "(1::int) \<le> 16"
    by (simp_all add: p1_simps)
  have c: "2 * (D p1 * (T_final p1 / real_of_int 16) / (L p1 / real_of_int 2) ^ 2)
     + k p1 * (T_final p1 / real_of_int 16) = 9 / 16"
    by (simp add: p1_simps power2_eq_square)
  have f: "field_after p1 2 16 2 = [1, 23 / 64, 0]"
    using field_p1_stable by (simp add: numeral_2_eq_2)
  have "\<forall>v \<in> set (field_after p1 2 16 2). 0 \<le> v \<and> v \<le> c0 p1"
    using ftcs_solver_maximum_principle [OF h] c by simp
  then have "0 \<le> field_after p1 2 16 2 ! 1 \<and> field_after p1 2 16 2 ! 1 \<le> c0 p1"
    by (simp add: f)
  then show ?thesis
    using h c f by simp
qed

section \<open>The step count of the convergence study\<close>

lemma ftcs_alpha_Nt_conv:
  assumes "L p \<noteq> 0" "N \<noteq> 0"
  shows "ftcs_alpha p N (Nt_conv N) = D p * T_final p / (2 * (L p) ^ 2)"
  using assms by (simp add: ftcs_alpha_def Nt_conv_def power2_eq_square)

lemma params_simps:
  "L params = 5 / 1000" "D params = 1 / 10 ^ 10" "k params = 2 / 10 ^ 4" "c0 params = 1"
  "T_final params = 7200"
  by (simp_all add: params_def)

lemma params_alpha: "D params * T_final params / (2 * (L params) ^ 2) = 144 / 10000"
  by (simp add: params_simps power2_eq_square)

text \<open>
  Claim C6. With \<open>Nt = 2 * N\<^sup>2\<close> the ratio \<open>alpha = D * (T_final / Nt) / (L / N)\<^sup>2\<close> is
  \<open>D * T_final / (2 * L\<^sup>2)\<close> for every node count \<open>N\<close> of the list of the study (and for
  every \<open>N \<ge> 1\<close>): one constant for all resolutions. For the parameters of
  \<^verbatim>\<open>params.py\<close> it is \<open>0.0144\<close>, which is at most \<open>1/2\<close>.
\<close>

theorem alpha_constant_across_grids:
  assumes "0 < L p"
  shows "(\<forall>N. 1 \<le> N \<longrightarrow>
            D p * (T_final p / real_of_int (Nt_conv N)) / (L p / real_of_int N) ^ 2
              = D p * T_final p / (2 * (L p) ^ 2)) \<and>
         (\<forall>N \<in> set grids. ftcs_alpha p N (Nt_conv N) = D p * T_final p / (2 * (L p) ^ 2)) \<and>
         (\<forall>N \<in> set grids.
            ftcs_alpha params N (Nt_conv N) = 144 / 10000 \<and> ftcs_alpha params N (Nt_conv N) \<le> 1 / 2)"
proof -
  have l: "L p \<noteq> 0" "L params \<noteq> 0"
    using assms by (simp_all add: params_simps)
  have g: "N \<noteq> 0" if "N \<in> set grids" for N
    using that by (auto simp: grids_def)
  have "D p * (T_final p / real_of_int (Nt_conv N)) / (L p / real_of_int N) ^ 2
              = D p * T_final p / (2 * (L p) ^ 2)" if "1 \<le> N" for N
    using ftcs_alpha_Nt_conv [of p N] l that by (simp add: ftcs_alpha_expand)
  moreover have "ftcs_alpha p N (Nt_conv N) = D p * T_final p / (2 * (L p) ^ 2)"
    if "N \<in> set grids" for N
    using ftcs_alpha_Nt_conv [of p N] l g that by simp
  moreover have "ftcs_alpha params N (Nt_conv N) = 144 / 10000 \<and>
      ftcs_alpha params N (Nt_conv N) \<le> 1 / 2" if "N \<in> set grids" for N
    using ftcs_alpha_Nt_conv [of params N] l g that by (simp add: params_alpha)
  ultimately show ?thesis by blast
qed

theorem alpha_constant_across_grids_witness:
  "0 < L params \<and> 20 \<in> set grids \<and> 320 \<in> set grids \<and>
   ftcs_alpha params 20 (Nt_conv 20) = D params * T_final params / (2 * (L params) ^ 2) \<and>
   ftcs_alpha params 320 (Nt_conv 320) = ftcs_alpha params 20 (Nt_conv 20) \<and>
   ftcs_alpha params 320 (Nt_conv 320) = 144 / 10000"
proof -
  have h: "0 < L params"
    by (simp add: params_simps)
  have m: "20 \<in> set grids" "320 \<in> set grids"
    by (simp_all add: grids_def)
  note t = alpha_constant_across_grids [OF h]
  have a: "ftcs_alpha params 20 (Nt_conv 20) = D params * T_final params / (2 * (L params) ^ 2)"
    using t m by blast
  have b: "ftcs_alpha params 320 (Nt_conv 320) = 144 / 10000"
    "ftcs_alpha params 20 (Nt_conv 20) = 144 / 10000"
    using t m by blast+
  show ?thesis
    using h m a b by (simp only: simp_thms)
qed

section \<open>The reference solution at the boundary and at \<open>k = 0\<close>\<close>

lemma transient_denominator:
  assumes "L p \<noteq> 0" "0 \<le> k p / D p" "n \<noteq> 0"
  shows "(L p) ^ 2 * ((k p / D p) + (real_of_int n * pi / L p) ^ 2) \<noteq> 0"
proof -
  have "real_of_int n * pi / L p \<noteq> 0"
    using assms by simp
  then have "0 < (real_of_int n * pi / L p) ^ 2"
    by simp
  then have "0 < (k p / D p) + (real_of_int n * pi / L p) ^ 2"
    using assms(2) by linarith
  then show ?thesis
    using assms(1) by simp
qed

lemma transient_loop_length:
  assumes "L p \<noteq> 0" "0 \<le> k p / D p" "\<forall>n \<in> set ns. n \<noteq> 0" "length c = length x_arr"
  shows "\<exists>c'. transient_loop p t x_arr ns c = Inr c' \<and> length c' = length x_arr"
  using assms
proof (induction ns arbitrary: c)
  case Nil
  then show ?case by simp
next
  case (Cons n ns)
  have d: "(L p) ^ 2 * ((k p / D p) + (real_of_int n * pi / L p) ^ 2) \<noteq> 0"
    using Cons.prems by (intro transient_denominator) simp_all
  show ?case
    using Cons.prems d by (simp add: Let_def Cons.IH del: mult_eq_0_iff)
qed

lemma transient_loop_node:
  assumes "L p \<noteq> 0" "0 \<le> k p / D p" "\<forall>n \<in> set ns. n \<noteq> 0" "length c = length x_arr"
    and "i < length x_arr" "c ! i = 0"
    and "\<forall>n \<in> set ns. sin (real_of_int n * pi * x_arr ! i / L p) = 0"
  shows "\<exists>c'. transient_loop p t x_arr ns c = Inr c' \<and> length c' = length x_arr \<and> c' ! i = 0"
  using assms
proof (induction ns arbitrary: c)
  case Nil
  then show ?case by simp
next
  case (Cons n ns)
  have d: "(L p) ^ 2 * ((k p / D p) + (real_of_int n * pi / L p) ^ 2) \<noteq> 0"
    using Cons.prems by (intro transient_denominator) simp_all
  define c1 where "c1 = map2 (\<lambda>c s. c + (- 2 * c0 p * real_of_int n * pi)
       / ((L p) ^ 2 * ((k p / D p) + (real_of_int n * pi / L p) ^ 2)) * s
       * exp (- (D p * (real_of_int n * pi / L p) ^ 2 + k p) * t)) c
       (map (\<lambda>x. sin (real_of_int n * pi * x / L p)) x_arr)"
  have l1: "length c1 = length x_arr"
    using Cons.prems by (simp add: c1_def)
  have z1: "c1 ! i = 0"
    using Cons.prems by (simp add: c1_def)
  have "transient_loop p t x_arr (n # ns) c = transient_loop p t x_arr ns c1"
    using Cons.prems d by (simp add: Let_def c1_def del: mult_eq_0_iff)
  moreover have "\<exists>c'. transient_loop p t x_arr ns c1 = Inr c' \<and> length c' = length x_arr \<and> c' ! i = 0"
    using Cons.prems l1 z1 by (intro Cons.IH) simp_all
  ultimately show ?case by simp
qed

lemma analytical_concentration_k_zero:
  assumes "k p = 0" "D p \<noteq> 0" "L p \<noteq> 0"
  shows "analytical_concentration x_arr t p n_terms = Inr (replicate (length x_arr) NaN)"
proof -
  obtain c where c: "transient_loop p t x_arr [1..n_terms] (replicate (length x_arr) 0) = Inr c"
      "length c = length x_arr"
    using transient_loop_length [of p "[1..n_terms]" "replicate (length x_arr) 0" x_arr t] assms
    by auto
  have "map2 (\<lambda>u v. np_add u (Fin v)) (map (\<lambda>x. NaN) x_arr) c = replicate (length x_arr) NaN"
    using c(2) by (auto intro!: nth_equalityI)
  then show ?thesis
    using assms c by (simp add: analytical_concentration_def np_sqrt_real_def np_true_divide_def)
qed

text \<open>
  Claim C10. In exact arithmetic, for every \<open>t \<ge> 0\<close>, every \<open>n_terms \<ge> 1\<close> and every
  parameter set with \<open>L, D > 0\<close> and \<open>k > 0\<close>, the reference solution is exactly \<open>c0\<close> at
  a grid point \<open>x = 0\<close> and exactly 0 at a grid point \<open>x = L\<close>: the steady term is
  \<open>c0 * sinh(gamma * L) / sinh(gamma * L)\<close>, respectively \<open>c0 * sinh 0 / sinh(gamma * L)\<close>,
  and every transient mode has the factor \<open>sin 0\<close>, respectively \<open>sin(n * pi)\<close>.
\<close>

theorem analytical_concentration_boundary_values:
  assumes "0 < L p" "0 < D p" "0 < k p" "0 \<le> t" "1 \<le> n_terms" "i < length x_arr"
  shows "(x_arr ! i = 0 \<longrightarrow>
            (\<exists>ys. analytical_concentration x_arr t p n_terms = Inr ys \<and>
                  length ys = length x_arr \<and> ys ! i = Fin (c0 p))) \<and>
         (x_arr ! i = L p \<longrightarrow>
            (\<exists>ys. analytical_concentration x_arr t p n_terms = Inr ys \<and>
                  length ys = length x_arr \<and> ys ! i = Fin 0))"
proof -
  define g where "g = sqrt (k p / D p)"
  have q: "0 < k p / D p"
    using assms by simp
  have g: "0 < g" "np_sqrt_real (k p / D p) = Fin g"
    using q by (simp_all add: g_def np_sqrt_real_def not_less less_imp_le)
  have s: "sinh (g * L p) \<noteq> 0"
    using g assms by simp
  have kd: "0 \<le> k p / D p" "L p \<noteq> 0" "D p \<noteq> 0" "\<forall>n \<in> set [1..n_terms]. n \<noteq> 0"
    using assms by simp_all
  have sin0: "\<forall>n \<in> set [1..n_terms]. sin (real_of_int n * pi * x_arr ! i / L p) = 0"
    if "x_arr ! i = 0 \<or> x_arr ! i = L p"
    using that kd(2) by (auto simp: mult.commute)
  have tr: "\<exists>c. transient_loop p t x_arr [1..n_terms] (replicate (length x_arr) 0) = Inr c \<and>
      length c = length x_arr \<and> c ! i = 0" if "x_arr ! i = 0 \<or> x_arr ! i = L p"
    using kd assms(6) sin0 [OF that]
    by (intro transient_loop_node) simp_all
  have res: "\<exists>ys. analytical_concentration x_arr t p n_terms = Inr ys \<and> length ys = length x_arr \<and>
      ys ! i = Fin (c0 p * sinh (g * (L p - x_arr ! i)) / sinh (g * L p))"
    if xi: "x_arr ! i = 0 \<or> x_arr ! i = L p"
  proof -
    obtain c where c: "transient_loop p t x_arr [1..n_terms] (replicate (length x_arr) 0) = Inr c"
        "length c = length x_arr" "c ! i = 0"
      using tr [OF xi] by blast
    show ?thesis
      using c g s kd assms(6) by (simp add: analytical_concentration_def np_true_divide_def)
  qed
  show ?thesis
    using res s by auto
qed

theorem analytical_concentration_boundary_values_witness:
  "0 < L p1 \<and> 0 < D p1 \<and> 0 < k p1 \<and> (0::real) \<le> 1 \<and> (1::int) \<le> 2 \<and>
   (\<exists>ys. analytical_concentration [0, 1 / 2, 1] 1 p1 2 = Inr ys \<and> length ys = 3 \<and>
         ys ! 0 = Fin 1 \<and> ys ! 2 = Fin 0)"
proof -
  have h: "0 < L p1" "0 < D p1" "0 < k p1" "(0::real) \<le> 1" "(1::int) \<le> 2"
    by (simp_all add: p1_simps)
  have "\<exists>ys. analytical_concentration [0, 1 / 2, 1] 1 p1 2 = Inr ys \<and> length ys = 3 \<and>
      ys ! 0 = Fin 1"
    using analytical_concentration_boundary_values [OF h, of 0 "[0, 1 / 2, 1]"]
    by (auto simp: p1_simps)
  moreover have "\<exists>ys. analytical_concentration [0, 1 / 2, 1] 1 p1 2 = Inr ys \<and> length ys = 3 \<and>
      ys ! 2 = Fin 0"
    using analytical_concentration_boundary_values [OF h, of 2 "[0, 1 / 2, 1]"]
    by (auto simp: p1_simps)
  ultimately show ?thesis
    using h by auto
qed

text \<open>
  Claim C5 says that for \<open>k = 0\<close> the steady term is the linear profile
  \<open>c0 * (1 - x / L)\<close> and no quotient \<open>0 / 0\<close> is evaluated. The code has no branch for
  \<open>k = 0\<close>: \<open>gamma\<close> is 0, both hyperbolic sines are 0, numpy's division gives NaN,
  and every entry of the result is NaN. Evaluated on the parameters of \<^verbatim>\<open>params.py\<close>
  with \<open>k\<close> set to 0, at \<open>x = 0\<close>, \<open>L / 2\<close> and \<open>L\<close>, where the claim gives the steady
  values 1, \<open>1/2\<close> and 0:
\<close>

theorem analytical_concentration_k_zero_is_nan:
  "analytical_concentration [0, 1 / 400, 1 / 200] 7200 (params\<lparr>k := 0\<rparr>) 50 = Inr [NaN, NaN, NaN]"
  using analytical_concentration_k_zero [of "params\<lparr>k := 0\<rparr>" "[0, 1 / 400, 1 / 200]" 7200 50]
  by (simp add: params_simps)

section \<open>The RMS error\<close>

lemma np_add_left_commute: "np_add u (np_add v w) = np_add v (np_add u w)"
  by (cases u; cases v; cases w) simp_all

lemma np_sum_Cons: "np_sum (v # vs) = np_add v (np_sum vs)"
  by (simp add: np_sum_def)

lemma np_sum_Nil: "np_sum [] = Fin 0"
  by (simp add: np_sum_def)

lemma np_sum_mset:
  assumes "mset vs = mset ws"
  shows "np_sum vs = np_sum ws"
proof -
  have "fold np_add (rev vs) = fold np_add (rev ws)"
    by (rule fold_multiset_equiv) (simp_all add: assms fun_eq_iff np_add_left_commute)
  then show ?thesis
    by (simp add: np_sum_def foldr_conv_fold)
qed

lemma np_sum_Fin: "np_sum (map Fin rs) = Fin (sum_list rs)"
  by (induction rs) (simp_all add: np_sum_Nil np_sum_Cons)

lemma np_add_Fin_iff: "np_add u v = Fin s \<longleftrightarrow> (\<exists>a b. u = Fin a \<and> v = Fin b \<and> s = a + b)"
  by (cases u; cases v) auto

lemma np_sum_finite:
  "np_sum vs = Fin s \<Longrightarrow> \<exists>rs. vs = map Fin rs \<and> s = sum_list rs"
proof (induction vs arbitrary: s)
  case Nil
  then show ?case by (simp add: np_sum_Nil)
next
  case (Cons v vs)
  then obtain a b where ab: "v = Fin a" "np_sum vs = Fin b" "s = a + b"
    by (auto simp: np_sum_Cons np_add_Fin_iff)
  then obtain rs where "vs = map Fin rs" "b = sum_list rs"
    using Cons.IH by blast
  then have "v # vs = map Fin (a # rs) \<and> s = sum_list (a # rs)"
    using ab by simp
  then show ?case ..
qed

lemma rms_error_zip:
  "rms_error c_num c_ana = np_sqrt (np_mean (map sq_diff (zip c_num c_ana)))"
proof -
  have "map np_square (map2 (\<lambda>a b. np_subtract (Fin a) b) c_num c_ana) =
      map sq_diff (zip c_num c_ana)"
    by (rule nth_equalityI) (simp_all add: sq_diff_def)
  then show ?thesis
    by (simp only: rms_error_def)
qed

lemma np_mean_mset:
  assumes "mset vs = mset ws"
  shows "np_mean vs = np_mean ws"
proof -
  have "length vs = length ws"
    using assms by (rule mset_eq_length)
  moreover have "vs = [] \<longleftrightarrow> ws = []"
    using assms by (metis mset_zero_iff)
  ultimately show ?thesis
    using np_sum_mset [OF assms] by (auto simp: np_mean_def split: npfloat.splits)
qed

lemma rms_error_mset:
  assumes "mset (zip c_num c_ana) = mset (zip c_num' c_ana')"
  shows "rms_error c_num c_ana = rms_error c_num' c_ana'"
proof -
  have "mset (map sq_diff (zip c_num c_ana)) = mset (map sq_diff (zip c_num' c_ana'))"
    using assms by (metis mset_map)
  then have "np_mean (map sq_diff (zip c_num c_ana)) = np_mean (map sq_diff (zip c_num' c_ana'))"
    by (rule np_mean_mset)
  then show ?thesis
    by (simp only: rms_error_zip)
qed

lemma sq_diff_Fin: "sq_diff (a, Fin b) = Fin ((a - b) ^ 2)"
  by (simp add: sq_diff_def np_subtract_def)

lemma sq_diff_Fin_iff: "sq_diff (a, v) = Fin r \<longleftrightarrow> (\<exists>b. v = Fin b \<and> r = (a - b) ^ 2)"
  by (cases v) (auto simp: sq_diff_def np_subtract_def)

lemma rms_error_finite:
  assumes "length c_num = length c_ref" "c_num \<noteq> []"
  shows "rms_error c_num (map Fin c_ref) =
     Fin (sqrt (sum_list (map2 (\<lambda>a b. (a - b) ^ 2) c_num c_ref) / real (length c_num)))"
proof -
  define ds where "ds = map2 (\<lambda>a b. (a - b) ^ 2) c_num c_ref"
  have m: "map sq_diff (zip c_num (map Fin c_ref)) = map Fin ds"
    unfolding ds_def using assms(1)
    by (induction c_num c_ref rule: list_induct2) (simp_all add: sq_diff_Fin)
  have nn: "0 \<le> sum_list ds"
    unfolding ds_def by (rule sum_list_nonneg) auto
  have l: "length ds = length c_num" "ds \<noteq> []"
    using assms by (auto simp: ds_def)
  have "np_mean (map Fin ds) = Fin (sum_list ds / real (length c_num))"
    using l by (simp add: np_mean_def np_sum_Fin)
  then have "rms_error c_num (map Fin c_ref) = Fin (sqrt (sum_list ds / real (length c_num)))"
    using nn by (simp add: rms_error_zip m np_sqrt_real_def not_less)
  then show ?thesis
    by (simp only: ds_def)
qed


lemma mset_permuted_indices:
  assumes "bij_betw f {..<length xs} {..<length xs}"
  shows "mset (map (\<lambda>i. xs ! f i) [0..<length xs]) = mset xs"
proof -
  have inj: "inj_on f {0..<length xs}" and img: "f ` {0..<length xs} = {0..<length xs}"
    using assms by (simp_all add: bij_betw_def lessThan_atLeast0)
  have "mset (map (\<lambda>i. xs ! f i) [0..<length xs]) =
      image_mset (nth xs) (image_mset f (mset [0..<length xs]))"
    by (simp add: multiset.map_comp comp_def)
  also have "image_mset f (mset [0..<length xs]) = mset [0..<length xs]"
    using inj img by (simp add: image_mset_mset_set)
  also have "image_mset (nth xs) (mset [0..<length xs]) = mset (map (nth xs) [0..<length xs])"
    by simp
  also have "\<dots> = mset xs"
    by (simp only: map_nth)
  finally show ?thesis .
qed

lemma rms_error_permuted:
  assumes "length c_num = length c_ana"
    and "bij_betw f {..<length c_num} {..<length c_num}"
  shows "rms_error (map (\<lambda>i. c_num ! f i) [0..<length c_num])
           (map (\<lambda>i. c_ana ! f i) [0..<length c_num]) = rms_error c_num c_ana"
proof -
  have fi: "f i < length c_num" if "i < length c_num" for i
    using assms(2) that by (auto simp: bij_betw_def)
  have "zip (map (\<lambda>i. c_num ! f i) [0..<length c_num]) (map (\<lambda>i. c_ana ! f i) [0..<length c_num])
      = map (\<lambda>i. zip c_num c_ana ! f i) [0..<length (zip c_num c_ana)]"
    using assms(1) fi by (intro nth_equalityI) simp_all
  moreover have "mset (map (\<lambda>i. zip c_num c_ana ! f i) [0..<length (zip c_num c_ana)])
      = mset (zip c_num c_ana)"
    using assms by (intro mset_permuted_indices) simp
  ultimately show ?thesis
    by (intro rms_error_mset) simp
qed

lemma rms_error_zero_iff:
  assumes "length c_num = length c_ana" "c_num \<noteq> []"
  shows "rms_error c_num c_ana = Fin 0 \<longleftrightarrow> c_ana = map Fin c_num"
proof
  assume "c_ana = map Fin c_num"
  moreover have "sum_list (map2 (\<lambda>a b. (a - b) ^ 2) c_num c_num) = 0"
    by (induction c_num) simp_all
  ultimately show "rms_error c_num c_ana = Fin 0"
    using rms_error_finite [of c_num c_num] assms(2) by simp
next
  assume z: "rms_error c_num c_ana = Fin 0"
  define vs where "vs = map sq_diff (zip c_num c_ana)"
  have vne: "vs \<noteq> []" and vl: "length vs = length c_num"
    using assms by (auto simp: vs_def)
  have sq: "np_sqrt (np_mean vs) = Fin 0"
    using z by (simp add: rms_error_zip vs_def)
  then obtain m where m: "np_mean vs = Fin m" "0 \<le> m" "sqrt m = 0"
    by (cases "np_mean vs") (auto simp: np_sqrt_real_def split: if_splits)
  then obtain t where t: "np_sum vs = Fin t" "t / real (length vs) = 0"
    using vne by (cases "np_sum vs") (auto simp: np_mean_def)
  then have t0: "t = 0"
    using vne by simp
  obtain rs where rs: "vs = map Fin rs" "sum_list rs = 0"
    using np_sum_finite [OF t(1)] t0 by auto
  have rl: "length rs = length c_num"
    using rs(1) vl by (metis length_map)
  have el: "\<exists>b. c_ana ! i = Fin b \<and> rs ! i = (c_num ! i - b) ^ 2" if i: "i < length c_num" for i
  proof -
    have "vs ! i = sq_diff (c_num ! i, c_ana ! i)"
      using i assms(1) by (simp add: vs_def)
    moreover have "vs ! i = Fin (rs ! i)"
      using i rl by (simp add: rs(1))
    ultimately have "sq_diff (c_num ! i, c_ana ! i) = Fin (rs ! i)"
      by simp
    then show ?thesis
      by (simp only: sq_diff_Fin_iff)
  qed
  have nn: "\<forall>r \<in> set rs. 0 \<le> r"
  proof
    fix r assume "r \<in> set rs"
    then obtain i where "i < length rs" "rs ! i = r"
      by (auto simp: in_set_conv_nth)
    then show "0 \<le> r"
      using el [of i] rl by auto
  qed
  have all0: "\<forall>r \<in> set rs. r = 0"
    using rs(2) nn by (simp add: sum_list_nonneg_eq_0_iff)
  show "c_ana = map Fin c_num"
  proof (rule nth_equalityI)
    show "length c_ana = length (map Fin c_num)"
      using assms(1) by simp
  next
    fix i assume "i < length c_ana"
    then have i: "i < length c_num"
      using assms(1) by simp
    then have "rs ! i = 0"
      using all0 rl by simp
    then show "c_ana ! i = map Fin c_num ! i"
      using el [OF i] i by auto
  qed
qed

subsection \<open>The RMS error in floating point\<close>

lemma np_rnd_exact: "np_rnd (\<lambda>v. v) u = u"
  by (cases u) (simp_all add: np_rnd_def)

lemma rms_error_fl_exact: "rms_error_fl (\<lambda>v. v) np_sum c_num c_ana = rms_error c_num c_ana"
  by (simp add: rms_error_fl_def rms_error_def np_mean_fl_def np_mean_def np_rnd_exact)

lemma rms_error_fl_equal:
  assumes "fl 0 = 0" "reduce (replicate (length c_num) (Fin 0)) = Fin 0" "c_num \<noteq> []"
    and "c_ana = map Fin c_num"
  shows "rms_error_fl fl reduce c_num c_ana = Fin 0"
proof -
  have "map (\<lambda>v. np_rnd fl (np_square v))
      (map2 (\<lambda>a b. np_rnd fl (np_subtract (Fin a) b)) c_num (map Fin c_num))
      = replicate (length c_num) (Fin 0)"
    using assms(1) by (intro nth_equalityI) (simp_all add: np_rnd_def np_subtract_def)
  then show ?thesis
    using assms by (simp add: rms_error_fl_def np_mean_fl_def np_rnd_def np_sqrt_real_def)
qed

lemma binary64_sqrt_below_1:
  assumes "1 / 4 \<le> q" "q < 1"
    and "((of_int m - 1 / 2) / 2 ^ 53) ^ 2 < q" "q < ((of_int m + 1 / 2) / 2 ^ 53) ^ 2"
    and "0 \<le> m"
  shows "binary64 (sqrt q) = of_int m / 2 ^ 53"
proof -
  have "(1 / 2) ^ 2 \<le> q"
    using assms(1) by (simp add: power2_eq_square)
  then have lo: "1 / 2 \<le> sqrt q"
    by (rule real_le_rsqrt)
  have hi: "sqrt q < 1"
    using assms(1,2) by simp
  have a: "(of_int m - 1 / 2) / 2 ^ 53 < sqrt q"
    using assms(3) by (rule real_less_rsqrt)
  have b: "sqrt q < (of_int m + 1 / 2) / 2 ^ 53"
    using assms(4,5) by (intro real_less_lsqrt) simp_all
  have "round_half_even (sqrt q * (2 ^ 1 * 2 ^ 52)) = m"
    using a b by (intro round_half_even_nearest) (simp_all add: field_simps)
  moreover have "\<bar>sqrt q\<bar> = sqrt q"
    using lo by simp
  ultimately show ?thesis
    using binary64_lt1 [where n = 1 and x = "sqrt q"] lo hi by simp
qed

lemma b64_values:
  "binary64 (3 / 2) = 3 / 2" "binary64 (9 / 4) = 9 / 4" "binary64 (3 / 4) = 3 / 4"
  "binary64 (1 / 2 ^ 26) = 1 / 2 ^ 26" "binary64 (1 / 2 ^ 52) = 1 / 2 ^ 52"
  "binary64 (1 / 2 ^ 51) = 1 / 2 ^ 51" "binary64 (1 / 2 ^ 600) = 1 / 2 ^ 600"
proof -
  show "binary64 (3 / 2) = 3 / 2"
    using binary64_ge1 [where n = 0 and x = "3 / 2"] by simp
  show "binary64 (9 / 4) = 9 / 4"
    using binary64_ge1 [where n = 1 and x = "9 / 4"] by simp
  show "binary64 (3 / 4) = 3 / 4"
    using binary64_lt1 [where n = 1 and x = "3 / 4"] by simp
  show "binary64 (1 / 2 ^ 26) = 1 / 2 ^ 26" "binary64 (1 / 2 ^ 52) = 1 / 2 ^ 52"
    "binary64 (1 / 2 ^ 51) = 1 / 2 ^ 51" "binary64 (1 / 2 ^ 600) = 1 / 2 ^ 600"
    by (simp_all only: binary64_inverse_power2) 
qed

lemma b64_underflow: "binary64 ((1 / 2 ^ 600) ^ 2) = 0"
proof -
  have "round_half_even ((1 / 2 ^ 600) ^ 2 * 2 ^ 1074) = 0"
    by (rule round_half_even_nearest) (simp_all add: power2_eq_square)
  moreover have "\<bar>((1::real) / 2 ^ 600) ^ 2\<bar> < 1 / 2 ^ 1022"
    by (simp add: power2_eq_square)
  ultimately show ?thesis
    using binary64_subnormal [of "(1 / 2 ^ 600) ^ 2"] by simp
qed

lemma b64_sum_tie: "binary64 (9 / 4 + 1 / 2 ^ 52) = 9 / 4"
proof -
  have "round_half_even ((9 / 4 + 1 / 2 ^ 52) * 2 ^ 52 / 2 ^ 1) =
      (if even (5066549580791808 :: int) then 5066549580791808 else 5066549580791808 + 1)"
    by (rule round_half_even_tie) simp
  then have "round_half_even ((9 / 4 + 1 / 2 ^ 52) * 2 ^ 52 / 2 ^ 1) = 5066549580791808"
    by simp
  then show ?thesis
    using binary64_ge1 [where n = 1 and x = "9 / 4 + 1 / 2 ^ 52"] by simp
qed

lemma b64_sum_exact: "binary64 (1 / 2 ^ 51 + 9 / 4) = 9 / 4 + 1 / 2 ^ 51"
proof -
  have "(1 / 2 ^ 51 + 9 / 4) * 2 ^ 52 / 2 ^ 1 = (of_int 5066549580791809 :: real)"
    by simp
  then have "round_half_even ((1 / 2 ^ 51 + 9 / 4) * 2 ^ 52 / 2 ^ 1) = 5066549580791809"
    by (simp only: round_half_even_int)
  then show ?thesis
    using binary64_ge1 [where n = 1 and x = "1 / 2 ^ 51 + 9 / 4"] by simp
qed

lemma b64_mean: "binary64 ((9 / 4 + 1 / 2 ^ 51) / 3) = 3 / 4 + 1 / 2 ^ 53"
proof -
  have "round_half_even ((9 / 4 + 1 / 2 ^ 51) / 3 * (2 ^ 1 * 2 ^ 52)) = 6755399441055745"
    by (rule round_half_even_nearest) simp_all
  then show ?thesis
    using binary64_lt1 [where n = 1 and x = "(9 / 4 + 1 / 2 ^ 51) / 3"] by simp
qed

lemma b64_sqrt:
  "binary64 (sqrt (3 / 4)) = 7800463371553962 / 2 ^ 53"
  "binary64 (sqrt (3 / 4 + 1 / 2 ^ 53)) = 7800463371553963 / 2 ^ 53"
proof -
  show "binary64 (sqrt (3 / 4)) = 7800463371553962 / 2 ^ 53"
    using binary64_sqrt_below_1 [where q = "3 / 4" and m = 7800463371553962]
    by (simp add: power2_eq_square)
  show "binary64 (sqrt (3 / 4 + 1 / 2 ^ 53)) = 7800463371553963 / 2 ^ 53"
    using binary64_sqrt_below_1 [where q = "3 / 4 + 1 / 2 ^ 53" and m = 7800463371553963]
    by (simp add: power2_eq_square)
qed

lemma rms_error_fl_one:
  "rms_error_fl fl (seq_reduce fl) [a] [Fin b] =
     np_rnd fl (np_sqrt (Fin (fl (fl (0 + fl ((fl (a - b)) ^ 2)) / 1))))"
  by (simp add: rms_error_fl_def np_mean_fl_def seq_reduce_def np_rnd_def np_subtract_def)

lemma rms_error_fl_three:
  "rms_error_fl fl (seq_reduce fl) [a1, a2, a3] [Fin b1, Fin b2, Fin b3] =
     np_rnd fl (np_sqrt (Fin (fl (fl (fl (fl (0 + fl ((fl (a1 - b1)) ^ 2)) + fl ((fl (a2 - b2)) ^ 2))
        + fl ((fl (a3 - b3)) ^ 2)) / 3))))"
  by (simp add: rms_error_fl_def np_mean_fl_def seq_reduce_def np_rnd_def np_subtract_def)

lemma rms_underflow:
  "rms_error_fl binary64 (seq_reduce binary64) [1 / 2 ^ 600] [Fin 0] = Fin 0"
proof -
  have "binary64 (binary64 (0 + binary64 ((binary64 (1 / 2 ^ 600 - 0)) ^ 2)) / 1) = 0"
    by (simp only: diff_zero b64_values b64_underflow add_0_left binary64_0 div_by_1)
  then show ?thesis
    by (simp only: rms_error_fl_one) (simp add: np_rnd_def np_sqrt_real_def)
qed

lemma rms_forward:
  "rms_error_fl binary64 (seq_reduce binary64) [3 / 2, 1 / 2 ^ 26, 1 / 2 ^ 26] [Fin 0, Fin 0, Fin 0]
     = Fin (7800463371553962 / 2 ^ 53)"
proof -
  have sq: "((3 / 2 :: real)) ^ 2 = 9 / 4" "((1 / 2 ^ 26 :: real)) ^ 2 = 1 / 2 ^ 52"
    by (simp_all add: power2_eq_square)
  have e: "binary64 (binary64 (binary64 (binary64 (0 + binary64 ((binary64 (3 / 2 - 0)) ^ 2))
      + binary64 ((binary64 (1 / 2 ^ 26 - 0)) ^ 2)) + binary64 ((binary64 (1 / 2 ^ 26 - 0)) ^ 2)) / 3)
      = 3 / 4"
    by (simp only: diff_zero b64_values sq add_0_left b64_sum_tie) (simp add: b64_values)
  have n: "\<not> (3 / 4 < (0::real))"
    by simp
  show ?thesis
    by (simp only: rms_error_fl_three e np_sqrt.simps np_sqrt_real_def n if_False np_rnd_def
        npfloat.case b64_sqrt)
qed

lemma rms_backward:
  "rms_error_fl binary64 (seq_reduce binary64) [1 / 2 ^ 26, 1 / 2 ^ 26, 3 / 2] [Fin 0, Fin 0, Fin 0]
     = Fin (7800463371553963 / 2 ^ 53)"
proof -
  have sq: "((3 / 2 :: real)) ^ 2 = 9 / 4" "((1 / 2 ^ 26 :: real)) ^ 2 = 1 / 2 ^ 52"
    by (simp_all add: power2_eq_square)
  have d: "(1 / 2 ^ 52 :: real) + 1 / 2 ^ 52 = 1 / 2 ^ 51"
    by simp
  have e: "binary64 (binary64 (binary64 (binary64 (0 + binary64 ((binary64 (1 / 2 ^ 26 - 0)) ^ 2))
      + binary64 ((binary64 (1 / 2 ^ 26 - 0)) ^ 2)) + binary64 ((binary64 (3 / 2 - 0)) ^ 2)) / 3)
      = 3 / 4 + 1 / 2 ^ 53"
    by (simp only: diff_zero b64_values sq add_0_left d b64_sum_exact b64_mean)
  have n: "\<not> (3 / 4 + 1 / 2 ^ 53 < (0::real))"
    by simp
  show ?thesis
    by (simp only: rms_error_fl_three e np_sqrt.simps np_sqrt_real_def n if_False np_rnd_def
        npfloat.case b64_sqrt)
qed

text \<open>
  Claim C8 says that on two arrays over the same \<open>Nx + 1\<close> nodes the RMS error of the
  study is the square root of the mean of the squared differences between the solver's
  values and the reference values, that it does not change when one permutation of the
  nodes is applied to both arrays, and that it is 0 exactly when the reference value
  equals the solver's value at every node. In exact arithmetic all three hold (the first
  three parts below). The code computes in doubles, where the second and the third fail
  (see the runs after the theorem). What holds in doubles, for every rounding that keeps
  0 and every summation that adds zeros to 0, is one direction of the third: if the
  reference value equals the solver's value at every node, the RMS error is 0.
\<close>

theorem rms_error_exact_and_double:
  assumes "length c_num = length c_ana" "c_num \<noteq> []"
  shows "(\<forall>c_ref. c_ana = map Fin c_ref \<longrightarrow>
            rms_error_fl (\<lambda>v. v) np_sum c_num c_ana =
              Fin (sqrt ((\<Sum>i<length c_num. (c_num ! i - c_ref ! i) ^ 2) / real (length c_num)))) \<and>
         (\<forall>f. bij_betw f {..<length c_num} {..<length c_num} \<longrightarrow>
            rms_error_fl (\<lambda>v. v) np_sum (map (\<lambda>i. c_num ! f i) [0..<length c_num])
              (map (\<lambda>i. c_ana ! f i) [0..<length c_num]) =
            rms_error_fl (\<lambda>v. v) np_sum c_num c_ana) \<and>
         (rms_error_fl (\<lambda>v. v) np_sum c_num c_ana = Fin 0 \<longleftrightarrow>
            (\<forall>i<length c_num. c_ana ! i = Fin (c_num ! i))) \<and>
         (\<forall>fl reduce. fl 0 = 0 \<and> reduce (replicate (length c_num) (Fin 0)) = Fin 0 \<longrightarrow>
            (\<forall>i<length c_num. c_ana ! i = Fin (c_num ! i)) \<longrightarrow>
            rms_error_fl fl reduce c_num c_ana = Fin 0)"
proof -
  have a: "rms_error c_num c_ana =
      Fin (sqrt ((\<Sum>i<length c_num. (c_num ! i - c_ref ! i) ^ 2) / real (length c_num)))"
    if r: "c_ana = map Fin c_ref" for c_ref
  proof -
    have l: "length c_num = length c_ref"
      using assms(1) r by simp
    have "sum_list (map2 (\<lambda>a b. (a - b) ^ 2) c_num c_ref) =
        (\<Sum>i<length c_num. (c_num ! i - c_ref ! i) ^ 2)"
      using l by (simp add: sum_list_sum_nth lessThan_atLeast0)
    then show ?thesis
      using rms_error_finite [OF l assms(2)] r by simp
  qed
  have c: "c_ana = map Fin c_num \<longleftrightarrow> (\<forall>i<length c_num. c_ana ! i = Fin (c_num ! i))"
    using assms(1) by (auto simp: list_eq_iff_nth_eq)
  have d: "rms_error_fl fl reduce c_num c_ana = Fin 0"
    if "fl 0 = 0 \<and> reduce (replicate (length c_num) (Fin 0)) = Fin 0"
      and "\<forall>i<length c_num. c_ana ! i = Fin (c_num ! i)" for fl reduce
    using that c assms(2) by (intro rms_error_fl_equal) simp_all
  show ?thesis
    unfolding rms_error_fl_exact
    using a rms_error_permuted [OF assms(1)] rms_error_zero_iff [OF assms] c d by blast
qed

theorem rms_error_exact_and_double_witness:
  "length [1, 2, 4 :: real] = length [Fin 1, Fin 0, Fin 2] \<and> [1, 2, 4 :: real] \<noteq> [] \<and>
   rms_error_fl (\<lambda>v. v) np_sum [1, 2, 4] [Fin 1, Fin 0, Fin 2] = Fin (sqrt (8 / 3)) \<and>
   rms_error_fl (\<lambda>v. v) np_sum [4, 2, 1] [Fin 2, Fin 0, Fin 1] =
     rms_error_fl (\<lambda>v. v) np_sum [1, 2, 4] [Fin 1, Fin 0, Fin 2] \<and>
   rms_error_fl (\<lambda>v. v) np_sum [1, 2, 4] [Fin 1, Fin 0, Fin 2] \<noteq> Fin 0 \<and>
   binary64 0 = 0 \<and> seq_reduce binary64 (replicate (length [1, 2, 4 :: real]) (Fin 0)) = Fin 0 \<and>
   rms_error_fl binary64 (seq_reduce binary64) [1, 2, 4] [Fin 1, Fin 2, Fin 4] = Fin 0"
proof -
  have h: "length [1, 2, 4 :: real] = length [Fin 1, Fin 0, Fin 2]" "[1, 2, 4 :: real] \<noteq> []"
    by simp_all
  note t = rms_error_exact_and_double [OF h]
  have b: "bij_betw (\<lambda>i. 2 - i) {..<length [1, 2, 4 :: real]} {..<length [1, 2, 4 :: real]}"
    by (rule bij_betw_byWitness [where f' = "\<lambda>i. 2 - i"]) auto
  have "\<forall>c_ref. [Fin 1, Fin 0, Fin 2] = map Fin c_ref \<longrightarrow>
      rms_error_fl (\<lambda>v. v) np_sum [1, 2, 4] [Fin 1, Fin 0, Fin 2] =
        Fin (sqrt ((\<Sum>i<length [1, 2, 4 :: real]. ([1, 2, 4] ! i - c_ref ! i) ^ 2)
                  / real (length [1, 2, 4 :: real])))"
    using t by (rule conjunct1)
  from this [rule_format, of "[1, 0, 2]"]
  have "rms_error_fl (\<lambda>v. v) np_sum [1, 2, 4] [Fin 1, Fin 0, Fin 2] =
      Fin (sqrt ((\<Sum>i<length [1, 2, 4 :: real]. ([1, 2, 4] ! i - [1, 0, 2] ! i) ^ 2)
                  / real (length [1, 2, 4 :: real])))"
    by simp
  then have v: "rms_error_fl (\<lambda>v. v) np_sum [1, 2, 4] [Fin 1, Fin 0, Fin 2] = Fin (sqrt (8 / 3))"
    by (simp add: lessThan_Suc eval_nat_numeral)
  have "rms_error_fl (\<lambda>v. v) np_sum (map (\<lambda>i. [1, 2, 4] ! (2 - i)) [0..<length [1, 2, 4 :: real]])
          (map (\<lambda>i. [Fin 1, Fin 0, Fin 2] ! (2 - i)) [0..<length [1, 2, 4 :: real]]) =
        rms_error_fl (\<lambda>v. v) np_sum [1, 2, 4] [Fin 1, Fin 0, Fin 2]"
    using t b by blast
  then have pm: "rms_error_fl (\<lambda>v. v) np_sum [4, 2, 1] [Fin 2, Fin 0, Fin 1] =
      rms_error_fl (\<lambda>v. v) np_sum [1, 2, 4] [Fin 1, Fin 0, Fin 2]"
    by (simp add: upt_rec [of _ 3] eval_nat_numeral)
  have "rms_error_fl (\<lambda>v. v) np_sum [1, 2, 4] [Fin 1, Fin 0, Fin 2] = Fin 0 \<longleftrightarrow>
      (\<forall>i<length [1, 2, 4 :: real]. [Fin 1, Fin 0, Fin 2] ! i = Fin ([1, 2, 4] ! i))"
    using t by blast
  moreover have "\<not> (\<forall>i<length [1, 2, 4 :: real]. [Fin 1, Fin 0, Fin 2] ! i = Fin ([1, 2, 4] ! i))"
    by (simp add: not_all) (rule exI [of _ 1], simp)
  ultimately have nz: "rms_error_fl (\<lambda>v. v) np_sum [1, 2, 4] [Fin 1, Fin 0, Fin 2] \<noteq> Fin 0"
    by blast
  have h2: "length [1, 2, 4 :: real] = length [Fin 1, Fin 2, Fin 4]"
    by simp
  have z: "seq_reduce binary64 (replicate (length [1, 2, 4 :: real]) (Fin 0)) = Fin 0"
    by (simp add: seq_reduce_def np_rnd_def eval_nat_numeral)
  have eq: "\<forall>i<length [1, 2, 4 :: real]. [Fin 1, Fin 2, Fin 4] ! i = Fin ([1, 2, 4] ! i)"
    by (simp add: less_Suc_eq eval_nat_numeral)
  have "\<forall>fl reduce. fl 0 = 0 \<and> reduce (replicate (length [1, 2, 4 :: real]) (Fin 0)) = Fin 0 \<longrightarrow>
      (\<forall>i<length [1, 2, 4 :: real]. [Fin 1, Fin 2, Fin 4] ! i = Fin ([1, 2, 4] ! i)) \<longrightarrow>
      rms_error_fl fl reduce [1, 2, 4] [Fin 1, Fin 2, Fin 4] = Fin 0"
    using rms_error_exact_and_double [OF h2 h(2)] by blast
  then have dz: "rms_error_fl binary64 (seq_reduce binary64) [1, 2, 4] [Fin 1, Fin 2, Fin 4] = Fin 0"
    using z eq binary64_0 by blast
  show ?thesis
    using h v pm nz z dz binary64_0 by (simp only: simp_thms)
qed

text \<open>
  Two runs in double arithmetic against claim C8 as it is stated. The arrays
  \<open>[2\<^sup>-\<^sup>6\<^sup>0\<^sup>0]\<close> and \<open>[0]\<close> differ, but the square of their difference underflows to 0
  and the RMS error is 0. The arrays \<open>[3/2, 2\<^sup>-\<^sup>2\<^sup>6, 2\<^sup>-\<^sup>2\<^sup>6]\<close> and \<open>[2\<^sup>-\<^sup>2\<^sup>6, 2\<^sup>-\<^sup>2\<^sup>6, 3/2]\<close>,
  each against the reference \<open>[0, 0, 0]\<close>, are permutations of each other, and their RMS
  errors differ in the last bit.
\<close>

theorem rms_error_double_not_exact:
  "binary64 (1 / 2 ^ 600) = 1 / 2 ^ 600 \<and> (1 / 2 ^ 600 :: real) \<noteq> 0 \<and>
   rms_error_fl binary64 (seq_reduce binary64) [1 / 2 ^ 600] [Fin 0] = Fin 0 \<and>
   rms_error_fl binary64 (seq_reduce binary64) [3 / 2, 1 / 2 ^ 26, 1 / 2 ^ 26] [Fin 0, Fin 0, Fin 0]
     = Fin (7800463371553962 / 2 ^ 53) \<and>
   rms_error_fl binary64 (seq_reduce binary64) [1 / 2 ^ 26, 1 / 2 ^ 26, 3 / 2] [Fin 0, Fin 0, Fin 0]
     = Fin (7800463371553963 / 2 ^ 53) \<and>
   rms_error_fl binary64 (seq_reduce binary64) [1 / 2 ^ 26, 1 / 2 ^ 26, 3 / 2] [Fin 0, Fin 0, Fin 0]
     \<noteq> rms_error_fl binary64 (seq_reduce binary64) [3 / 2, 1 / 2 ^ 26, 1 / 2 ^ 26]
         [Fin 0, Fin 0, Fin 0]"
proof -
  have "(1 / 2 ^ 600 :: real) \<noteq> 0"
    by simp
  moreover have "rms_error_fl binary64 (seq_reduce binary64) [1 / 2 ^ 26, 1 / 2 ^ 26, 3 / 2]
      [Fin 0, Fin 0, Fin 0]
    \<noteq> rms_error_fl binary64 (seq_reduce binary64) [3 / 2, 1 / 2 ^ 26, 1 / 2 ^ 26]
        [Fin 0, Fin 0, Fin 0]"
    by (simp only: rms_forward rms_backward) simp
  ultimately show ?thesis
    using b64_values(7) rms_underflow rms_forward rms_backward by (simp only: simp_thms)
qed

section \<open>The loop of the convergence study and the fit\<close>

lemma convergence_loop_finite_prefix:
  assumes "\<forall>M \<in> set pre. M \<noteq> 0 \<and> err M = Inr (Fin (e M))"
  shows "convergence_loop err p (pre @ rest) (errors, dx_values) =
     convergence_loop err p rest
       (errors @ map e pre, dx_values @ map (\<lambda>M. L p / real_of_int M) pre)"
  using assms by (induction pre arbitrary: errors dx_values) simp_all

lemma convergence_loop_break:
  assumes "err N = Inr v" "\<not> np_isfinite v"
  shows "convergence_loop err p (N # post) (errors, dx_values) = Inr (errors, dx_values)"
  using assms by (cases v) (simp_all add: np_isfinite_def)

lemma convergence_loop_records:
  assumes "\<forall>M \<in> set pre. M \<noteq> 0 \<and> err M = Inr (Fin (e M))" "err N = Inr v" "\<not> np_isfinite v"
  shows "convergence_loop err p (pre @ N # post) ([], []) =
     Inr (map e pre, map (\<lambda>M. L p / real_of_int M) pre)"
proof -
  have "convergence_loop err p (pre @ N # post) ([], []) =
      convergence_loop err p (N # post) ([] @ map e pre, [] @ map (\<lambda>M. L p / real_of_int M) pre)"
    using assms(1) by (rule convergence_loop_finite_prefix)
  also have "\<dots> = Inr ([] @ map e pre, [] @ map (\<lambda>M. L p / real_of_int M) pre)"
    using assms(2,3) by (rule convergence_loop_break)
  finally show ?thesis by simp
qed

lemma ln_values:
  "ln (1 / 4000 :: real) = - (5 * ln 2 + 3 * ln 5)"
  "ln (1 / 8000 :: real) = - (6 * ln 2 + 3 * ln 5)"
  "ln (1 / 400 :: real) = - (4 * ln 2 + 2 * ln 5)"
  "ln (1 / 1600 :: real) = - (6 * ln 2 + 2 * ln 5)"
proof -
  have "ln (4000 :: real) = ln (2 ^ 5 * 5 ^ 3)" "ln (8000 :: real) = ln (2 ^ 6 * 5 ^ 3)"
    "ln (400 :: real) = ln (2 ^ 4 * 5 ^ 2)" "ln (1600 :: real) = ln (2 ^ 6 * 5 ^ 2)"
    by simp_all
  then have "ln (4000 :: real) = 5 * ln 2 + 3 * ln 5" "ln (8000 :: real) = 6 * ln 2 + 3 * ln 5"
    "ln (400 :: real) = 4 * ln 2 + 2 * ln 5" "ln (1600 :: real) = 6 * ln 2 + 2 * ln 5"
    by (simp_all only: ln_mult_pos ln_realpow zero_less_numeral zero_less_power)
  then show "ln (1 / 4000 :: real) = - (5 * ln 2 + 3 * ln 5)"
    "ln (1 / 8000 :: real) = - (6 * ln 2 + 3 * ln 5)"
    "ln (1 / 400 :: real) = - (4 * ln 2 + 2 * ln 5)"
    "ln (1 / 1600 :: real) = - (6 * ln 2 + 2 * ln 5)"
    by (simp_all add: ln_div)
qed

lemma lstsq_line_two_points:
  assumes "x1 \<noteq> x2"
  shows "lstsq_line [Fin x1, Fin x2] [Fin y1, Fin y2] =
     Inr (Fin ((y1 - y2) / (x1 - x2)), Fin ((x1 * y2 - x2 * y1) / (x1 - x2)))"
proof -
  have d: "2 * x1\<^sup>2 + 2 * x2\<^sup>2 - (x1 + x2)\<^sup>2 = (x1 - x2) * (x1 - x2)"
    by (simp add: power2_eq_square algebra_simps)
  have nz: "2 * x1\<^sup>2 + 2 * x2\<^sup>2 \<noteq> (x1 + x2)\<^sup>2"
    using d assms by (metis diff_eq_diff_eq eq_iff_diff_eq_0 mult_eq_0_iff)
  have "2 * (x1 * y1) + 2 * (x2 * y2) - (x1 + x2) * (y1 + y2) = (x1 - x2) * (y1 - y2)"
    by (simp add: algebra_simps)
  then have s: "(2 * (x1 * y1) + 2 * (x2 * y2) - (x1 + x2) * (y1 + y2))
      / (2 * x1\<^sup>2 + 2 * x2\<^sup>2 - (x1 + x2)\<^sup>2) = (y1 - y2) / (x1 - x2)"
    using assms by (simp add: d)
  have "(y1 + y2) * (x1\<^sup>2 + x2\<^sup>2) - (x1 + x2) * (x1 * y1 + x2 * y2)
      = (x1 - x2) * (x1 * y2 - x2 * y1)"
    by (simp add: power2_eq_square algebra_simps)
  then have i: "((y1 + y2) * (x1\<^sup>2 + x2\<^sup>2) - (x1 + x2) * (x1 * y1 + x2 * y2))
      / (2 * x1\<^sup>2 + 2 * x2\<^sup>2 - (x1 + x2)\<^sup>2) = (x1 * y2 - x2 * y1) / (x1 - x2)"
    using assms by (simp add: d)
  have "x1 = 0 \<longrightarrow> x2 \<noteq> 0"
    using assms by simp
  then show ?thesis
    using nz by (simp add: lstsq_line_def Let_def s i)
qed

lemma lstsq_line_example:
  "lstsq_line [np_log (1 / 4000), np_log (1 / 8000)] [np_log (1 / 400), np_log (1 / 1600)]
     = Inr (Fin 2, Fin (6 * ln 2 + 4 * ln 5))"
proof -
  have l2: "ln (2 :: real) \<noteq> 0"
    by simp
  have ne: "ln (1 / 4000 :: real) \<noteq> ln (1 / 8000)"
    using l2 by (simp only: ln_values)
  have a: "(ln (1 / 400 :: real) - ln (1 / 1600)) / (ln (1 / 4000) - ln (1 / 8000)) = 2"
    using l2 by (simp only: ln_values) simp
  have b: "(ln (1 / 4000 :: real) * ln (1 / 1600) - ln (1 / 8000) * ln (1 / 400))
      / (ln (1 / 4000) - ln (1 / 8000)) = 6 * ln 2 + 4 * ln 5"
    using l2 by (simp only: ln_values) (simp add: field_simps)
  show ?thesis
    using lstsq_line_two_points [OF ne, of "ln (1 / 400)" "ln (1 / 1600)"]
    by (simp only: a b np_log_def) simp
qed

text \<open>
  Claim C7. If the error of some resolution \<open>N\<close> is not finite, that resolution is not
  recorded and no resolution after it in the list is processed, whatever its error would
  be: the records are those of the resolutions before \<open>N\<close>, all finite, and the slope fit
  is computed over exactly these records.
\<close>

theorem convergence_study_stops_at_nonfinite:
  assumes "\<forall>M \<in> set pre. M \<noteq> 0 \<and> err M = Inr (Fin (e M))"
    and "err N = Inr v" "\<not> np_isfinite v"
  shows "convergence_loop err p (pre @ N # post) ([], []) =
           Inr (map e pre, map (\<lambda>M. L p / real_of_int M) pre) \<and>
         study_with err lstsq p (pre @ N # post) =
           (case np_polyfit1 lstsq (map (\<lambda>M. np_log (L p / real_of_int M)) pre)
                   (map (\<lambda>M. np_log (e M)) pre) of
              Inl x \<Rightarrow> Inl x
            | Inr (slope, intercept) \<Rightarrow>
                Inr (map (\<lambda>M. L p / real_of_int M) pre, map e pre, slope, intercept))"
  using convergence_loop_records [OF assms, of p post]
  by (simp add: study_with_def comp_def)

theorem convergence_study_stops_at_nonfinite_witness:
  "err_overflow_at_80 20 = Inr (Fin (1 / 400)) \<and> err_overflow_at_80 40 = Inr (Fin (1 / 1600)) \<and>
   err_overflow_at_80 80 = Inr PInf \<and> \<not> np_isfinite PInf \<and>
   err_overflow_at_80 160 = Inr (Fin 1) \<and> grids = [20, 40] @ 80 # [160, 320] \<and>
   convergence_loop err_overflow_at_80 params grids ([], []) =
     Inr ([1 / 400, 1 / 1600], [1 / 4000, 1 / 8000]) \<and>
   study_with err_overflow_at_80 lstsq_line params grids =
     Inr ([1 / 4000, 1 / 8000], [1 / 400, 1 / 1600], Fin 2, Fin (6 * ln 2 + 4 * ln 5))"
proof -
  have h: "\<forall>M \<in> set [20, 40]. M \<noteq> 0 \<and>
      err_overflow_at_80 M = Inr (Fin ((\<lambda>M. 1 / real_of_int (M * M)) M))"
    by (simp add: err_overflow_at_80_def)
  have n: "err_overflow_at_80 80 = Inr PInf" "\<not> np_isfinite PInf"
    by (simp_all add: err_overflow_at_80_def np_isfinite_def)
  have g: "grids = [20, 40] @ 80 # [160, 320]"
    by (simp add: grids_def)
  note t = convergence_study_stops_at_nonfinite [OF h n, of params "[160, 320]" lstsq_line]
  from t have "convergence_loop err_overflow_at_80 params ([20, 40] @ 80 # [160, 320]) ([], []) =
      Inr (map (\<lambda>M. 1 / real_of_int (M * M)) [20, 40],
           map (\<lambda>M. L params / real_of_int M) [20, 40])"
    by (rule conjunct1)
  then have loop: "convergence_loop err_overflow_at_80 params grids ([], []) =
      Inr ([1 / 400, 1 / 1600], [1 / 4000, 1 / 8000])"
    by (simp add: g params_simps)
  from t have "study_with err_overflow_at_80 lstsq_line params ([20, 40] @ 80 # [160, 320]) =
      (case np_polyfit1 lstsq_line (map (\<lambda>M. np_log (L params / real_of_int M)) [20, 40])
              (map (\<lambda>M. np_log (1 / real_of_int (M * M))) [20, 40]) of
         Inl x \<Rightarrow> Inl x
       | Inr (slope, intercept) \<Rightarrow>
           Inr (map (\<lambda>M. L params / real_of_int M) [20, 40],
                map (\<lambda>M. 1 / real_of_int (M * M)) [20, 40], slope, intercept))"
    by (rule conjunct2)
  then have fit: "study_with err_overflow_at_80 lstsq_line params grids =
      Inr ([1 / 4000, 1 / 8000], [1 / 400, 1 / 1600], Fin 2, Fin (6 * ln 2 + 4 * ln 5))"
    using lstsq_line_example by (simp add: g params_simps np_polyfit1_def)
  show ?thesis
    using n g loop fit by (simp add: err_overflow_at_80_def)
qed

lemma rms_error_all_NaN:
  assumes "c_num \<noteq> []"
  shows "rms_error c_num (replicate (length c_num) NaN) = NaN"
proof -
  obtain a as where c: "c_num = a # as"
    using assms by (cases c_num) auto
  have "map sq_diff (zip c_num (replicate (length c_num) NaN)) = replicate (length c_num) NaN"
    by (rule nth_equalityI) (simp_all add: sq_diff_def np_subtract_def)
  then show ?thesis
    by (simp add: rms_error_zip c np_mean_def np_sum_Cons)
qed

lemma error_at_k_zero:
  assumes "k p = 0" "D p \<noteq> 0" "L p \<noteq> 0" "1 \<le> N"
  shows "error_at p N = Inr NaN"
proof -
  have nt: "Nt_conv N \<noteq> 0"
    using assms(4) by (simp add: Nt_conv_def)
  define x where "x = (map (\<lambda>i. real i * (L p / real_of_int N) + 0) [0..<nat (N + 1)])
      [nat (N + 1) - 1 := L p]"
  define c where "c = field_after p N (Nt_conv N) (nat (Nt_conv N))"
  have s: "ftcs_solver p N (Nt_conv N) =
      Inr (if ftcs_alpha p N (Nt_conv N) > 1 / 2
          then [WARNING_Unstable (ftcs_alpha p N (Nt_conv N)), Reduce_dt_or_increase_dx] else [],
          x, c)"
    unfolding x_def c_def using assms(3,4) nt by (intro ftcs_solver_valid)
  have "length c = nat (N + 1)"
    by (simp add: c_def field_after_length)
  then have l: "length x = length c" "c \<noteq> []"
    using assms(4) by (auto simp: x_def)
  have "analytical_concentration x (T_final p) p 50 = Inr (replicate (length c) NaN)"
    using analytical_concentration_k_zero [OF assms(1,2,3)] l by simp
  then show ?thesis
    using rms_error_all_NaN [OF l(2)] by (simp add: error_at_def s)
qed

lemma study_with_no_record:
  assumes "err N = Inr v" "\<not> np_isfinite v"
  shows "study_with err lstsq p (N # Ns) = Inl TypeError"
proof -
  have "convergence_loop err p (N # Ns) ([], []) = Inr ([], [])"
    using assms by (rule convergence_loop_break)
  then show ?thesis
    by (simp add: study_with_def np_polyfit1_def)
qed

lemma study_with_one_record:
  assumes "convergence_loop err p Ns ([], []) = Inr ([e], [dx])"
  shows "study_with err lstsq p Ns =
     (case lstsq [np_log dx] [np_log e] of
        Inl x \<Rightarrow> Inl x
      | Inr (slope, intercept) \<Rightarrow> Inr ([dx], [e], slope, intercept))"
  using assms by (simp add: study_with_def np_polyfit1_def)

lemma lstsq_line_one_point:
  assumes "x \<noteq> 0"
  shows "lstsq_line [Fin x] [Fin y] = Inr (Fin (y / (2 * x)), Fin (y / 2))"
  using assms by (simp add: lstsq_line_def Let_def power2_eq_square)

lemma lstsq_line_one_point_nonfinite:
  assumes "x \<noteq> 0" "\<not> np_isfinite v"
  shows "lstsq_line [Fin x] [v] = Inr (NaN, NaN)"
  using assms by (cases v) (simp_all add: lstsq_line_def Let_def np_isfinite_def)

lemma lstsq_line_zero_abscissa: "lstsq_line [Fin 0] [v] = Inl LinAlgError"
  by (simp add: lstsq_line_def Let_def)

lemma convergence_loop_one_record:
  "convergence_loop err_one_record params grids ([], []) = Inr ([1 / 400], [1 / 4000])"
  by (simp add: grids_def err_one_record_def params_simps)

lemma convergence_loop_zero_record:
  "convergence_loop err_zero_record params grids ([], []) = Inr ([0], [1 / 4000])"
  by (simp add: grids_def err_zero_record_def params_simps)

lemma convergence_loop_unit_spacing:
  "convergence_loop err_one_record (params\<lparr>L := 20\<rparr>) grids ([], []) = Inr ([1 / 400], [1])"
  by (simp add: grids_def err_one_record_def)

lemma study_one_record_line:
  assumes "convergence_loop err p Ns ([], []) = Inr ([e], [dx])" "0 < e" "0 < dx" "dx \<noteq> 1"
  shows "study_with err lstsq_line p Ns = Inr ([dx], [e], Fin (ln e / (2 * ln dx)), Fin (ln e / 2))"
proof -
  have "ln dx \<noteq> 0"
    using assms by simp
  then have "lstsq_line [np_log dx] [np_log e] = Inr (Fin (ln e / (2 * ln dx)), Fin (ln e / 2))"
    using assms lstsq_line_one_point [of "ln dx" "ln e"] by (simp add: np_log_def)
  then show ?thesis
    using study_with_one_record [OF assms(1), of lstsq_line] by simp
qed

lemma study_one_record_zero_error:
  assumes "convergence_loop err p Ns ([], []) = Inr ([0], [dx])" "0 < dx" "dx \<noteq> 1"
  shows "study_with err lstsq_line p Ns = Inr ([dx], [0], NaN, NaN)"
proof -
  have "ln dx \<noteq> 0"
    using assms by simp
  then have "lstsq_line [np_log dx] [np_log 0] = Inr (NaN, NaN)"
    using assms lstsq_line_one_point_nonfinite [of "ln dx" NInf]
    by (simp add: np_log_def np_isfinite_def)
  then show ?thesis
    using study_with_one_record [OF assms(1), of lstsq_line] by simp
qed

lemma study_one_record_unit_spacing:
  assumes "convergence_loop err p Ns ([], []) = Inr ([e], [1])"
  shows "study_with err lstsq_line p Ns = Inl LinAlgError"
  using study_with_one_record [OF assms, of lstsq_line]
  by (simp add: np_log_def lstsq_line_zero_abscissa)

text \<open>
  Claim C4 says that with fewer than two finite records the study reports the slope fit
  as undefined and does not crash. The code has no such report and does not count its
  records. What holds instead, for exactly one record \<open>(dx, error)\<close>: the single point
  \<open>(log(dx), log(error))\<close> is passed to the least-squares fit, and what the fit returns or
  raises is the outcome of the study, for every fit. With numpy's fit and \<open>dx > 0\<close>:
  for \<open>dx \<noteq> 1\<close> and \<open>error > 0\<close> the study returns the minimum-norm slope
  \<open>log(error) / (2 * log(dx))\<close> and intercept \<open>log(error) / 2\<close>; for \<open>dx \<noteq> 1\<close> and
  \<open>error = 0\<close>, whose logarithm is \<open>-inf\<close>, it returns NaN for both; for \<open>dx = 1\<close> and
  \<open>error > 0\<close> the fit raises LinAlgError and the study ends with that exception.
\<close>

theorem convergence_study_single_record_fit:
  assumes "convergence_loop err p Ns ([], []) = Inr ([e], [dx])"
  shows "study_with err lstsq p Ns =
           (case lstsq [np_log dx] [np_log e] of
              Inl x \<Rightarrow> Inl x
            | Inr (slope, intercept) \<Rightarrow> Inr ([dx], [e], slope, intercept)) \<and>
         (0 < e \<and> 0 < dx \<and> dx \<noteq> 1 \<longrightarrow>
            study_with err lstsq_line p Ns =
              Inr ([dx], [e], Fin (ln e / (2 * ln dx)), Fin (ln e / 2))) \<and>
         (e = 0 \<and> 0 < dx \<and> dx \<noteq> 1 \<longrightarrow>
            study_with err lstsq_line p Ns = Inr ([dx], [e], NaN, NaN)) \<and>
         (0 < e \<and> dx = 1 \<longrightarrow> study_with err lstsq_line p Ns = Inl LinAlgError)"
  using study_with_one_record [OF assms] study_one_record_line [OF assms]
    study_one_record_zero_error [of err p Ns dx] study_one_record_unit_spacing [of err p Ns e]
    assms
  by blast

theorem convergence_study_single_record_fit_witness:
  "convergence_loop err_one_record params grids ([], []) = Inr ([1 / 400], [1 / 4000]) \<and>
   study_with err_one_record lstsq_line params grids =
     Inr ([1 / 4000], [1 / 400], Fin (ln (1 / 400) / (2 * ln (1 / 4000))), Fin (ln (1 / 400) / 2)) \<and>
   convergence_loop err_zero_record params grids ([], []) = Inr ([0], [1 / 4000]) \<and>
   study_with err_zero_record lstsq_line params grids = Inr ([1 / 4000], [0], NaN, NaN) \<and>
   convergence_loop err_one_record (params\<lparr>L := 20\<rparr>) grids ([], []) = Inr ([1 / 400], [1]) \<and>
   study_with err_one_record lstsq_line (params\<lparr>L := 20\<rparr>) grids = Inl LinAlgError"
proof -
  have "0 < (1 / 400 :: real) \<and> 0 < (1 / 4000 :: real) \<and> (1 / 4000 :: real) \<noteq> 1 \<longrightarrow>
      study_with err_one_record lstsq_line params grids =
        Inr ([1 / 4000], [1 / 400], Fin (ln (1 / 400) / (2 * ln (1 / 4000))), Fin (ln (1 / 400) / 2))"
    using convergence_study_single_record_fit [OF convergence_loop_one_record, of lstsq_line]
    by blast
  then have a: "study_with err_one_record lstsq_line params grids =
      Inr ([1 / 4000], [1 / 400], Fin (ln (1 / 400) / (2 * ln (1 / 4000))), Fin (ln (1 / 400) / 2))"
    by simp
  have "(0::real) = 0 \<and> 0 < (1 / 4000 :: real) \<and> (1 / 4000 :: real) \<noteq> 1 \<longrightarrow>
      study_with err_zero_record lstsq_line params grids = Inr ([1 / 4000], [0], NaN, NaN)"
    using convergence_study_single_record_fit [OF convergence_loop_zero_record, of lstsq_line]
    by blast
  then have b: "study_with err_zero_record lstsq_line params grids = Inr ([1 / 4000], [0], NaN, NaN)"
    by simp
  have "0 < (1 / 400 :: real) \<and> (1::real) = 1 \<longrightarrow>
      study_with err_one_record lstsq_line (params\<lparr>L := 20\<rparr>) grids = Inl LinAlgError"
    using convergence_study_single_record_fit [OF convergence_loop_unit_spacing, of lstsq_line]
    by blast
  then have c: "study_with err_one_record lstsq_line (params\<lparr>L := 20\<rparr>) grids = Inl LinAlgError"
    by simp
  show ?thesis
    using a b c convergence_loop_one_record convergence_loop_zero_record
      convergence_loop_unit_spacing
    by (simp only: simp_thms)
qed

text \<open>
  Two runs against claim C4 as it is stated. With the parameters of \<^verbatim>\<open>params.py\<close> and
  \<open>k = 0\<close> the reference solution is NaN, the first error is not finite, no record is
  gathered and \<^verbatim>\<open>np.polyfit\<close> raises a TypeError on the empty lists. With one finite error
  followed by an overflow, a slope and an intercept are returned from the single record.
\<close>

theorem convergence_study_not_reported_inconclusive:
  "convergence_study (params\<lparr>k := 0\<rparr>) = Inl TypeError \<and>
   study_with err_one_record lstsq_line params [20, 40] =
     Inr ([1 / 4000], [1 / 400], Fin (ln (1 / 400) / (2 * ln (1 / 4000))), Fin (ln (1 / 400) / 2))"
proof -
  have "error_at (params\<lparr>k := 0\<rparr>) 20 = Inr NaN"
    by (rule error_at_k_zero) (simp_all add: params_simps)
  then have a: "convergence_study (params\<lparr>k := 0\<rparr>) = Inl TypeError"
    by (simp add: convergence_study_def grids_def study_with_no_record np_isfinite_def)
  have "convergence_loop err_one_record params [20, 40] ([], []) = Inr ([1 / 400], [1 / 4000])"
    by (simp add: err_one_record_def params_simps)
  then have "study_with err_one_record lstsq_line params [20, 40] =
     Inr ([1 / 4000], [1 / 400], Fin (ln (1 / 400) / (2 * ln (1 / 4000))), Fin (ln (1 / 400) / 2))"
    by (rule study_one_record_line) simp_all
  then show ?thesis
    using a by simp
qed

end
